theory Spec2Isabelle
  imports Main "HOL-Library.Sublist" "HOL-Library.Multiset"
begin

section \<open>The connection pool of \<^verbatim>\<open>utilities/connection.py\<close>\<close>

text \<open>
  The module keeps two class attributes, \<^verbatim>\<open>Connection._pool\<close> and
  \<^verbatim>\<open>Connection._sem_remaining\<close>, and talks to four external collaborators: the
  configuration parser, the psycopg2 pool and driver, the threading primitives and the
  logger. The model threads a \<open>world\<close> record through every operation: the two class
  attributes, the lock of the \<^verbatim>\<open>synchronized\<close> decorator, and the trace of calls issued
  to the collaborators. What a collaborator answers is read from an \<open>env\<close> record, so
  that every raise of the source is a branch of the model.

  A Python \<^verbatim>\<open>str\<close> is a \<open>string\<close>; the model is meant for ASCII text (a \<open>char\<close> is one
  code point below 128).
\<close>

subsection \<open>Values and their literal rendering\<close>

text \<open>
  The entries of a value tuple. \<open>PyDatetime s r\<close> is a \<^verbatim>\<open>datetime\<close> object whose
  \<^verbatim>\<open>str()\<close> is \<open>s\<close> and whose \<^verbatim>\<open>repr()\<close> is \<open>r\<close>; \<open>PyOther r\<close> is any other object,
  whose \<^verbatim>\<open>repr()\<close> is \<open>r\<close>.
\<close>

datatype pyval =
    PyNone
  | PyBool bool
  | PyInt int
  | PyStr string
  | PyDatetime string string
  | PyOther string

definition digit_char :: "nat \<Rightarrow> char" where
  "digit_char d = char_of (of_char CHR ''0'' + d)"

fun dec_digits :: "nat \<Rightarrow> string" where
  "dec_digits n = (if n < 10 then [digit_char n] else dec_digits (n div 10) @ [digit_char (n mod 10)])"

declare dec_digits.simps [simp del]

definition repr_int :: "int \<Rightarrow> string" where
  "repr_int i = (if i < 0 then CHR ''-'' # dec_digits (nat (- i)) else dec_digits (nat i))"

definition hex_char :: "nat \<Rightarrow> char" where
  "hex_char d = (if d < 10 then digit_char d else char_of (of_char CHR ''a'' + (d - 10)))"

text \<open>One character of \<^verbatim>\<open>repr(str)\<close>, inside the quote character \<open>q\<close>.\<close>

definition repr_char :: "char \<Rightarrow> char \<Rightarrow> string" where
  "repr_char q c =
     (let n = (of_char c :: nat) in
      if c = q \<or> n = 92 then [char_of (92::nat), c]
      else if n = 9 then [char_of (92::nat), CHR ''t'']
      else if n = 10 then [char_of (92::nat), CHR ''n'']
      else if n = 13 then [char_of (92::nat), CHR ''r'']
      else if n < 32 \<or> n = 127 then [char_of (92::nat), CHR ''x'', hex_char (n div 16), hex_char (n mod 16)]
      else [c])"

text \<open>
  \<^verbatim>\<open>repr\<close> of a \<^verbatim>\<open>str\<close>: single quotes, unless the text has a single quote and no
  double quote.
\<close>

definition repr_str :: "string \<Rightarrow> string" where
  "repr_str s =
     (let q = (if char_of (39::nat) \<in> set s \<and> char_of (34::nat) \<notin> set s
               then char_of (34::nat) else char_of (39::nat))
      in [q] @ concat (map (repr_char q) s) @ [q])"

fun py_repr :: "pyval \<Rightarrow> string" where
  "py_repr PyNone = ''None''"
| "py_repr (PyBool b) = (if b then ''True'' else ''False'')"
| "py_repr (PyInt i) = repr_int i"
| "py_repr (PyStr s) = repr_str s"
| "py_repr (PyDatetime s r) = r"
| "py_repr (PyOther r) = r"

fun is_datetime :: "pyval \<Rightarrow> bool" where
  "is_datetime (PyDatetime s r) = True"
| "is_datetime v = False"

text \<open>\<^verbatim>\<open>str(entry)\<close>, which the source takes of \<^verbatim>\<open>datetime\<close> entries only.\<close>

fun datetime_str :: "pyval \<Rightarrow> string" where
  "datetime_str (PyDatetime s r) = s"
| "datetime_str v = py_repr v"

text \<open>\<^verbatim>\<open>sep.join(parts)\<close>.\<close>

fun join :: "string \<Rightarrow> string list \<Rightarrow> string" where
  "join sep [] = []"
| "join sep [p] = p"
| "join sep (p # q # ps) = p @ sep @ join sep (q # ps)"

text \<open>
  \<^verbatim>\<open>repr(str(entry)) if isinstance(entry, datetime) else repr(entry)\<close>
\<close>

definition render_entry :: "pyval \<Rightarrow> string" where
  "render_entry entry =
     (if is_datetime entry then py_repr (PyStr (datetime_str entry)) else py_repr entry)"

text \<open>
  \<^verbatim>\<open>f"({', '.join([... for entry in entries])})"\<close>
\<close>

definition render_tuple :: "pyval list \<Rightarrow> string" where
  "render_tuple entries = ''('' @ join '', '' (map render_entry entries) @ '')''"

text \<open>The local \<^verbatim>\<open>value_tuples_sql\<close> of \<^verbatim>\<open>sql_execute_values\<close>.\<close>

definition value_tuples_sql :: "pyval list list \<Rightarrow> string" where
  "value_tuples_sql value_tuples = join '', '' (map render_tuple value_tuples)"

text \<open>
  The statement \<^verbatim>\<open>sql_execute_values\<close> hands to \<^verbatim>\<open>sql_execute_commit\<close>, from the
  base text and the local \<^verbatim>\<open>value_tuples_sql\<close>. In
  \<^verbatim>\<open>sql += " " + value_tuples_sql + f" ON CONFLICT DO NOTHING" if ignore_duplicate else ""\<close>
  the conditional expression binds weaker than \<^verbatim>\<open>+\<close>: the whole concatenation is its
  first branch.
\<close>

definition values_statement :: "string \<Rightarrow> string \<Rightarrow> bool \<Rightarrow> string" where
  "values_statement sql vts ignore_duplicate =
     sql @ (if ignore_duplicate then '' '' @ vts @ '' ON CONFLICT DO NOTHING'' else [])"

subsection \<open>The mutation guard of \<^verbatim>\<open>sql_execute\<close>\<close>

definition upper_char :: "char \<Rightarrow> char" where
  "upper_char c =
     (let n = (of_char c :: nat) in if 97 \<le> n \<and> n \<le> 122 then char_of (n - 32) else c)"

definition upper :: "string \<Rightarrow> string" where
  "upper s = map upper_char s"

text \<open>\<^verbatim>\<open>keyword in text\<close> on strings: \<open>keyword\<close> is a contiguous part of \<open>text\<close>.\<close>

fun contains :: "string \<Rightarrow> string \<Rightarrow> bool" where
  "contains keyword [] = (keyword = [])"
| "contains keyword (c # cs) = (prefix keyword (c # cs) \<or> contains keyword cs)"

text \<open>
  \<^verbatim>\<open>any([keyword in sql.upper() for keyword in ["INSERT", "UPDATE"]])\<close>
\<close>

definition mutating :: "string \<Rightarrow> bool" where
  "mutating sql = list_ex (\<lambda>keyword. contains keyword (upper sql)) [''INSERT'', ''UPDATE'']"

subsection \<open>State, collaborators and results\<close>

type_synonym conn = nat
type_synonym config = "(string \<times> string) list"
type_synonym row = "pyval list"

datatype error =
    AttributeError
  | TypeError
  | ValueError
  | PoolError
  | External string

text \<open>
  A call returns a value, raises, or blocks: \<open>Blocks\<close> is a call that does not return
  in the state it was made in (a semaphore with no permit, a lock that is held).
\<close>

datatype 'a result = Returns 'a | Raises error | Blocks

text \<open>
  The calls issued to the collaborators, in the order they are made. For the two
  constructors the event also says how the call ended: with the error it raised, or with
  \<open>None\<close> when it returned a new object.
\<close>

datatype event =
    Parse "string list"
  | NewPool config "error option"
  | NewSemaphore int "error option"
  | SemAcquire
  | SemRelease
  | Getconn
  | Putconn "conn option"
  | Connect "string list" config
  | Cursor conn
  | Execute conn string
  | Fetchall conn
  | Commit conn
  | CursorClose conn
  | LogError string
  | LogInfo string

text \<open>
  \<open>pool\<close> is \<^verbatim>\<open>Connection._pool\<close>: \<open>None\<close>, or the psycopg2 pool with the connections
  it has checked out. \<open>sem_remaining\<close> is \<^verbatim>\<open>Connection._sem_remaining\<close>: \<open>None\<close>, or the
  semaphore with its permits. \<open>init_lock\<close> is \<^verbatim>\<open>__init__.__lock__\<close>, true while held.
\<close>

record world =
  pool :: "conn list option"
  sem_remaining :: "nat option"
  init_lock :: bool
  trace :: "event list"

text \<open>
  What the collaborators answer: the \<^verbatim>\<open>postgresql\<close> section the parser reads (or the
  error it raises), and for each driver call the error it raises, if any.
\<close>

record env =
  config_section :: "error + config"
  new_pool :: "config \<Rightarrow> error option"
  getconn_res :: "conn list \<Rightarrow> error + conn"
  connect_res :: "string list \<Rightarrow> config \<Rightarrow> error + conn"
  cursor_res :: "error option"
  execute_res :: "string \<Rightarrow> error option"
  fetchall_res :: "error + row list"
  commit_res :: "error option"
  close_res :: "error option"

definition emit :: "event \<Rightarrow> world \<Rightarrow> world" where
  "emit ev w = w\<lparr>trace := trace w @ [ev]\<rparr>"

text \<open>Sequencing: the next statement runs only when the call before it returned.\<close>

definition bind_r :: "'a result \<times> world \<Rightarrow> ('a \<Rightarrow> world \<Rightarrow> 'b result \<times> world) \<Rightarrow> 'b result \<times> world" where
  "bind_r m f =
     (case m of
        (Returns x, w) \<Rightarrow> f x w
      | (Raises e, w) \<Rightarrow> (Raises e, w)
      | (Blocks, w) \<Rightarrow> (Blocks, w))"

text \<open>A driver call that returns nothing: the call is traced, then it raises or returns.\<close>

definition driver_call :: "event \<Rightarrow> error option \<Rightarrow> world \<Rightarrow> unit result \<times> world" where
  "driver_call ev res w =
     (case res of None \<Rightarrow> (Returns (), emit ev w) | Some e \<Rightarrow> (Raises e, emit ev w))"

subsection \<open>Configuration\<close>

text \<open>
  Modelled from the spec: \<^verbatim>\<open>utilities.ini_parser.parse\<close> is not among the sources. The
  spec has it yield the mapping of connection parameters of the section, and for a raw
  connection all configured parameters except the fields named as unwanted.
\<close>

definition parse :: "env \<Rightarrow> string list \<Rightarrow> world \<Rightarrow> config result \<times> world" where
  "parse env unwanted_fields w =
     (case config_section env of
        Inl e \<Rightarrow> (Raises e, emit (Parse unwanted_fields) w)
      | Inr section \<Rightarrow>
          (Returns (filter (\<lambda>kv. fst kv \<notin> set unwanted_fields) section),
           emit (Parse unwanted_fields) w))"

text \<open>\<^verbatim>\<open>Connection.config()\<close>\<close>

definition config :: "env \<Rightarrow> world \<Rightarrow> config result \<times> world" where
  "config env w = parse env [] w"

subsection \<open>\<^verbatim>\<open>int()\<close> of a configured value and the semaphore constructor\<close>

definition is_digit :: "char \<Rightarrow> bool" where
  "is_digit c = (let n = (of_char c :: nat) in 48 \<le> n \<and> n \<le> 57)"

definition is_space :: "char \<Rightarrow> bool" where
  "is_space c = (let n = (of_char c :: nat) in (9 \<le> n \<and> n \<le> 13) \<or> n = 32)"

text \<open>Decimal digits, with single underscores allowed between two digits.\<close>

fun int_digits :: "nat \<Rightarrow> string \<Rightarrow> nat option" where
  "int_digits acc [] = Some acc"
| "int_digits acc (c # cs) =
     (if c = CHR ''_'' then
        (case cs of [] \<Rightarrow> None | d # ds \<Rightarrow> if is_digit d then int_digits acc cs else None)
      else if is_digit c then int_digits (acc * 10 + (of_char c - 48)) cs
      else None)"

definition int_unsigned :: "string \<Rightarrow> nat option" where
  "int_unsigned s = (case s of [] \<Rightarrow> None | c # cs \<Rightarrow> if is_digit c then int_digits 0 s else None)"

definition strip :: "string \<Rightarrow> string" where
  "strip s = rev (dropWhile is_space (rev (dropWhile is_space s)))"

text \<open>\<^verbatim>\<open>int(s)\<close> for a \<^verbatim>\<open>str\<close>: \<^verbatim>\<open>ValueError\<close> when the text is not a decimal literal.\<close>

definition int_of_str :: "string \<Rightarrow> error + int" where
  "int_of_str s =
     (case strip s of
        [] \<Rightarrow> Inl ValueError
      | c # cs \<Rightarrow>
          if c = CHR ''-'' then (case int_unsigned cs of None \<Rightarrow> Inl ValueError | Some n \<Rightarrow> Inr (- int n))
          else if c = CHR ''+'' then (case int_unsigned cs of None \<Rightarrow> Inl ValueError | Some n \<Rightarrow> Inr (int n))
          else (case int_unsigned (c # cs) of None \<Rightarrow> Inl ValueError | Some n \<Rightarrow> Inr (int n)))"

text \<open>\<^verbatim>\<open>int(cfg.get('maxconn', 4))\<close>\<close>

definition maxconn_int :: "config \<Rightarrow> error + int" where
  "maxconn_int cfg = (case map_of cfg ''maxconn'' of None \<Rightarrow> Inr 4 | Some s \<Rightarrow> int_of_str s)"

text \<open>A computation that touches no collaborator: it raises its error or returns its value.\<close>

definition raise_or_return :: "error + 'a \<Rightarrow> world \<Rightarrow> 'a result \<times> world" where
  "raise_or_return x w = (case x of Inl e \<Rightarrow> (Raises e, w) | Inr v \<Rightarrow> (Returns v, w))"

text \<open>\<^verbatim>\<open>threading.Semaphore(value)\<close>: a negative value raises \<^verbatim>\<open>ValueError\<close>.\<close>

definition Semaphore :: "int \<Rightarrow> world \<Rightarrow> nat result \<times> world" where
  "Semaphore v w =
     (if v < 0 then (Raises ValueError, emit (NewSemaphore v (Some ValueError)) w)
      else (Returns (nat v), emit (NewSemaphore v None) w))"

text \<open>
  How \<^verbatim>\<open>psycopg2.pool.ThreadedConnectionPool(**cfg)\<close> ends. Its signature is
  \<^verbatim>\<open>__init__(self, minconn, maxconn, *args, **kwargs)\<close>: a call without the keyword
  \<^verbatim>\<open>minconn\<close> or \<^verbatim>\<open>maxconn\<close> is a \<^verbatim>\<open>TypeError\<close>. Otherwise the constructor runs, and raises
  what the collaborators say (\<open>new_pool\<close>), if anything.
\<close>

definition pool_error :: "env \<Rightarrow> config \<Rightarrow> error option" where
  "pool_error env cfg =
     (if map_of cfg ''minconn'' = None \<or> map_of cfg ''maxconn'' = None then Some TypeError
      else new_pool env cfg)"

text \<open>
  \<^verbatim>\<open>psycopg2.pool.ThreadedConnectionPool(**cfg)\<close>: a new pool, nothing checked out.
\<close>

definition ThreadedConnectionPool :: "env \<Rightarrow> config \<Rightarrow> world \<Rightarrow> conn list result \<times> world" where
  "ThreadedConnectionPool env cfg w =
     (case pool_error env cfg of
        Some e \<Rightarrow> (Raises e, emit (NewPool cfg (Some e)) w)
      | None \<Rightarrow> (Returns [], emit (NewPool cfg None) w))"

subsection \<open>\<^verbatim>\<open>Connection.__init__\<close> under \<^verbatim>\<open>synchronized\<close>\<close>

text \<open>
  Entering \<^verbatim>\<open>with func.__lock__\<close> takes the lock, and blocks while another thread holds
  it; leaving gives it back.
\<close>

definition lock_acquire :: "world \<Rightarrow> unit result \<times> world" where
  "lock_acquire w = (if init_lock w then (Blocks, w) else (Returns (), w\<lparr>init_lock := True\<rparr>))"

definition lock_release :: "world \<Rightarrow> world" where
  "lock_release w = w\<lparr>init_lock := False\<rparr>"

text \<open>
  \<^verbatim>\<open>with func.__lock__: return func(*args, **kwargs)\<close>: the lock is taken, the body runs,
  and the lock is given back however the body ends.
\<close>

definition synchronized :: "(world \<Rightarrow> 'a result \<times> world) \<Rightarrow> world \<Rightarrow> 'a result \<times> world" where
  "synchronized func w =
     bind_r (lock_acquire w) (\<lambda>u w.
       (case func w of
          (Blocks, w') \<Rightarrow> (Blocks, w')
        | (r, w') \<Rightarrow> (r, lock_release w')))"

text \<open>
  \<^verbatim>\<open>psycopg2.pool.ThreadedConnectionPool(**self.config())\<close>, the right-hand side of the
  first assignment.
\<close>

definition build_pool :: "env \<Rightarrow> world \<Rightarrow> conn list result \<times> world" where
  "build_pool env w = bind_r (config env w) (\<lambda>cfg w. ThreadedConnectionPool env cfg w)"

text \<open>
  \<^verbatim>\<open>threading.Semaphore(int(self.config().get('maxconn', 4)))\<close>, the right-hand side of
  the second assignment.
\<close>

definition build_semaphore :: "env \<Rightarrow> world \<Rightarrow> nat result \<times> world" where
  "build_semaphore env w =
     bind_r (config env w) (\<lambda>cfg w.
     bind_r (raise_or_return (maxconn_int cfg) w) (\<lambda>v w. Semaphore v w))"

definition init_body :: "env \<Rightarrow> world \<Rightarrow> unit result \<times> world" where
  "init_body env w =
     (case pool w of
        Some p \<Rightarrow> (Returns (), w)
      | None \<Rightarrow>
          bind_r (build_pool env w) (\<lambda>p w.
          bind_r (build_semaphore env (w\<lparr>pool := Some p\<rparr>)) (\<lambda>n w.
          (Returns (), w\<lparr>sem_remaining := Some n\<rparr>))))"

definition init :: "env \<Rightarrow> world \<Rightarrow> unit result \<times> world" where
  "init env w = synchronized (init_body env) w"

subsection \<open>The lease: \<^verbatim>\<open>__enter__\<close> and \<^verbatim>\<open>__exit__\<close>\<close>

text \<open>\<^verbatim>\<open>Connection._sem_remaining.acquire(blocking=True)\<close>\<close>

definition sem_acquire :: "world \<Rightarrow> unit result \<times> world" where
  "sem_acquire w =
     (case sem_remaining w of
        None \<Rightarrow> (Raises AttributeError, w)
      | Some n \<Rightarrow>
          if n = 0 then (Blocks, emit SemAcquire w)
          else (Returns (), emit SemAcquire (w\<lparr>sem_remaining := Some (n - 1)\<rparr>)))"

text \<open>\<^verbatim>\<open>Connection._sem_remaining.release()\<close>\<close>

definition sem_release :: "world \<Rightarrow> unit result \<times> world" where
  "sem_release w =
     (case sem_remaining w of
        None \<Rightarrow> (Raises AttributeError, w)
      | Some n \<Rightarrow> (Returns (), emit SemRelease (w\<lparr>sem_remaining := Some (n + 1)\<rparr>)))"

text \<open>\<^verbatim>\<open>Connection._pool.getconn()\<close>: the pool checks a connection out, or raises.\<close>

definition getconn :: "env \<Rightarrow> world \<Rightarrow> conn result \<times> world" where
  "getconn env w =
     (case pool w of
        None \<Rightarrow> (Raises AttributeError, w)
      | Some used \<Rightarrow>
          (case getconn_res env used of
             Inl e \<Rightarrow> (Raises e, emit Getconn w)
           | Inr c \<Rightarrow> (Returns c, emit Getconn (w\<lparr>pool := Some (c # used)\<rparr>))))"

text \<open>
  \<^verbatim>\<open>Connection._pool.putconn(self.conn)\<close>: psycopg2 raises \<^verbatim>\<open>PoolError\<close> for a connection
  the pool has not checked out.
\<close>

definition putconn :: "conn option \<Rightarrow> world \<Rightarrow> unit result \<times> world" where
  "putconn self_conn w =
     (case pool w of
        None \<Rightarrow> (Raises AttributeError, w)
      | Some used \<Rightarrow>
          (case self_conn of
             None \<Rightarrow> (Raises PoolError, emit (Putconn self_conn) w)
           | Some c \<Rightarrow>
               if c \<in> set used
               then (Returns (), emit (Putconn self_conn) (w\<lparr>pool := Some (remove1 c used)\<rparr>))
               else (Raises PoolError, emit (Putconn self_conn) w)))"

definition enter :: "env \<Rightarrow> world \<Rightarrow> conn result \<times> world" where
  "enter env w = bind_r (sem_acquire w) (\<lambda>u w. getconn env w)"

definition exit_conn :: "conn option \<Rightarrow> world \<Rightarrow> unit result \<times> world" where
  "exit_conn self_conn w = bind_r (putconn self_conn w) (\<lambda>u w. sem_release w)"

text \<open>
  \<^verbatim>\<open>with Connection() as connection: body\<close>. The object is constructed, then entered;
  when \<^verbatim>\<open>__enter__\<close> has returned, \<^verbatim>\<open>__exit__\<close> runs however the body ends, and as it
  returns \<^verbatim>\<open>None\<close> an error of the body is raised again after it.
\<close>

definition with_connection :: "env \<Rightarrow> (conn \<Rightarrow> world \<Rightarrow> 'a result \<times> world) \<Rightarrow> world \<Rightarrow> 'a result \<times> world" where
  "with_connection env body w =
     bind_r (init env w) (\<lambda>u w.
     bind_r (enter env w) (\<lambda>c w.
       (case body c w of
          (Blocks, w) \<Rightarrow> (Blocks, w)
        | (r, w) \<Rightarrow> bind_r (exit_conn (Some c) w) (\<lambda>u w. (r, w)))))"

subsection \<open>The SQL helpers\<close>

text \<open>\<^verbatim>\<open>cursor.fetchall()\<close>\<close>

definition fetchall :: "env \<Rightarrow> conn \<Rightarrow> world \<Rightarrow> row list result \<times> world" where
  "fetchall env connection w =
     (case fetchall_res env of
        Inl e \<Rightarrow> (Raises e, emit (Fetchall connection) w)
      | Inr rows \<Rightarrow> (Returns rows, emit (Fetchall connection) w))"

text \<open>The suite of the \<^verbatim>\<open>with\<close> statement of \<^verbatim>\<open>sql_execute\<close>.\<close>

definition read_body :: "env \<Rightarrow> string \<Rightarrow> conn \<Rightarrow> world \<Rightarrow> row list result \<times> world" where
  "read_body env sql connection w =
     bind_r (driver_call (Cursor connection) (cursor_res env) w) (\<lambda>u w.
     bind_r (driver_call (Execute connection sql) (execute_res env sql) w) (\<lambda>u w.
     bind_r (fetchall env connection w) (\<lambda>rows w.
     bind_r (driver_call (CursorClose connection) (close_res env) w) (\<lambda>u w.
     (Returns rows, w)))))"

definition sql_execute :: "env \<Rightarrow> string \<Rightarrow> world \<Rightarrow> row list result \<times> world" where
  "sql_execute env sql w =
     (if mutating sql then
        (Returns [], emit (LogError ''You are running INSERT or UPDATE without committing, transaction aborted. Please retry with sql_execute_commit'') w)
      else with_connection env (read_body env sql) w)"

text \<open>The suite of the \<^verbatim>\<open>with\<close> statement of \<^verbatim>\<open>sql_execute_commit\<close>.\<close>

definition commit_body :: "env \<Rightarrow> string \<Rightarrow> conn \<Rightarrow> world \<Rightarrow> unit result \<times> world" where
  "commit_body env sql connection w =
     bind_r (driver_call (Cursor connection) (cursor_res env) w) (\<lambda>u w.
     bind_r (driver_call (Execute connection sql) (execute_res env sql) w) (\<lambda>u w.
     bind_r (driver_call (Commit connection) (commit_res env) w) (\<lambda>u w.
     driver_call (CursorClose connection) (close_res env) w)))"

definition sql_execute_commit :: "env \<Rightarrow> string \<Rightarrow> world \<Rightarrow> unit result \<times> world" where
  "sql_execute_commit env sql w = with_connection env (commit_body env sql) w"

definition sql_execute_values :: "env \<Rightarrow> string \<Rightarrow> pyval list list \<Rightarrow> bool \<Rightarrow> world \<Rightarrow> unit result \<times> world" where
  "sql_execute_values env sql value_tuples ignore_duplicate w =
     (let vts = value_tuples_sql value_tuples in
      if vts \<noteq> [] then sql_execute_commit env (values_statement sql vts ignore_duplicate) w
      else (Returns (), emit (LogInfo ''[DATABASE] Nothing to commit'') w))"

subsection \<open>The raw connection: \<^verbatim>\<open>Connection.__call__\<close>\<close>

text \<open>
  \<^verbatim>\<open>psycopg2.connect(*args, **parse(..., unwanted_fields=["minconn", "maxconn"]), **kwargs)\<close>:
  a keyword given by both mappings is a \<^verbatim>\<open>TypeError\<close> of the call.
\<close>

definition call :: "env \<Rightarrow> string list \<Rightarrow> config \<Rightarrow> world \<Rightarrow> conn result \<times> world" where
  "call env args kwargs w =
     bind_r (parse env [''minconn'', ''maxconn''] w) (\<lambda>cfg w.
       if set (map fst cfg) \<inter> set (map fst kwargs) \<noteq> {} then (Raises TypeError, w)
       else (case connect_res env args (cfg @ kwargs) of
               Inl e \<Rightarrow> (Raises e, emit (Connect args (cfg @ kwargs)) w)
             | Inr c \<Rightarrow> (Returns c, emit (Connect args (cfg @ kwargs)) w)))"

subsection \<open>Threads constructing \<^verbatim>\<open>Connection()\<close>\<close>

text \<open>
  Where a thread stands in \<^verbatim>\<open>lock_func\<close>: before the lock, holding it before the test
  \<^verbatim>\<open>not Connection._pool\<close>, past the test with no pool seen, past the first assignment,
  about to give the lock back with the outcome of the body, and done.
\<close>

datatype init_pc =
    NotStarted
  | InLock
  | Building
  | PoolStored
  | Leaving "unit result"
  | Finished "unit result"

text \<open>
  One step of one thread; the steps of the threads interleave freely. Each thread has
  its own answers \<open>env\<close> from the collaborators. The steps are those of \<open>synchronized\<close>
  and \<open>init_body\<close>: \<open>lock_acquire\<close>, the test, \<open>build_pool\<close> and the first assignment,
  \<open>build_semaphore\<close> and the second assignment, \<open>lock_release\<close>.
\<close>

inductive init_step :: "world \<times> init_pc list \<Rightarrow> world \<times> init_pc list \<Rightarrow> bool" where
  take_lock:
    "i < length pcs \<Longrightarrow> pcs ! i = NotStarted \<Longrightarrow> lock_acquire w = (Returns (), w') \<Longrightarrow>
     init_step (w, pcs) (w', pcs[i := InLock])"
| pool_seen:
    "i < length pcs \<Longrightarrow> pcs ! i = InLock \<Longrightarrow> pool w = Some p \<Longrightarrow>
     init_step (w, pcs) (w, pcs[i := Leaving (Returns ())])"
| pool_missing:
    "i < length pcs \<Longrightarrow> pcs ! i = InLock \<Longrightarrow> pool w = None \<Longrightarrow>
     init_step (w, pcs) (w, pcs[i := Building])"
| pool_built:
    "i < length pcs \<Longrightarrow> pcs ! i = Building \<Longrightarrow> build_pool env w = (Returns p, w') \<Longrightarrow>
     init_step (w, pcs) (w'\<lparr>pool := Some p\<rparr>, pcs[i := PoolStored])"
| pool_raises:
    "i < length pcs \<Longrightarrow> pcs ! i = Building \<Longrightarrow> build_pool env w = (Raises e, w') \<Longrightarrow>
     init_step (w, pcs) (w', pcs[i := Leaving (Raises e)])"
| semaphore_built:
    "i < length pcs \<Longrightarrow> pcs ! i = PoolStored \<Longrightarrow> build_semaphore env w = (Returns n, w') \<Longrightarrow>
     init_step (w, pcs) (w'\<lparr>sem_remaining := Some n\<rparr>, pcs[i := Leaving (Returns ())])"
| semaphore_raises:
    "i < length pcs \<Longrightarrow> pcs ! i = PoolStored \<Longrightarrow> build_semaphore env w = (Raises e, w') \<Longrightarrow>
     init_step (w, pcs) (w', pcs[i := Leaving (Raises e)])"
| give_lock:
    "i < length pcs \<Longrightarrow> pcs ! i = Leaving r \<Longrightarrow>
     init_step (w, pcs) (lock_release w, pcs[i := Finished r])"

fun in_lock :: "init_pc \<Rightarrow> bool" where
  "in_lock NotStarted = False"
| "in_lock (Finished r) = False"
| "in_lock pc = True"

text \<open>The pool objects and the semaphore objects constructed so far, read off the trace.\<close>

fun is_new_pool :: "event \<Rightarrow> bool" where
  "is_new_pool (NewPool cfg None) = True"
| "is_new_pool ev = False"

fun is_new_semaphore :: "event \<Rightarrow> bool" where
  "is_new_semaphore (NewSemaphore v None) = True"
| "is_new_semaphore ev = False"

definition pools_built :: "event list \<Rightarrow> nat" where
  "pools_built tr = length (filter is_new_pool tr)"

definition semaphores_built :: "event list \<Rightarrow> nat" where
  "semaphores_built tr = length (filter is_new_semaphore tr)"

text \<open>
  What holds of every state the constructing threads reach: at most one thread is inside
  the lock, and then the lock is held; a thread past the test with no pool seen still
  has no pool; a thread past the first assignment has a pool and no semaphore; there
  is no semaphore without a pool; and one pool object has been constructed if a pool is
  installed and none otherwise, and the same for the semaphore.
\<close>

definition init_inv :: "world \<times> init_pc list \<Rightarrow> bool" where
  "init_inv s =
     (let w = fst s; pcs = snd s in
      (\<forall>i j. i < length pcs \<and> j < length pcs \<and> in_lock (pcs ! i) \<and> in_lock (pcs ! j) \<longrightarrow> i = j) \<and>
      (\<forall>i. i < length pcs \<and> in_lock (pcs ! i) \<longrightarrow> init_lock w) \<and>
      (\<forall>i. i < length pcs \<and> pcs ! i = Building \<longrightarrow> pool w = None) \<and>
      (\<forall>i. i < length pcs \<and> pcs ! i = PoolStored \<longrightarrow> pool w \<noteq> None \<and> sem_remaining w = None) \<and>
      (pool w = None \<longrightarrow> sem_remaining w = None) \<and>
      pools_built (trace w) = (if pool w = None then 0 else 1) \<and>
      semaphores_built (trace w) = (if sem_remaining w = None then 0 else 1))"

subsection \<open>Leases taken and returned at the same time\<close>

text \<open>
  Where one \<^verbatim>\<open>with Connection()\<close> statement stands between \<^verbatim>\<open>__enter__\<close> and
  \<^verbatim>\<open>__exit__\<close>: outside, holding a permit before \<^verbatim>\<open>getconn\<close>, holding the lease,
  past \<^verbatim>\<open>putconn\<close> before the permit is given back, and ended by an error of
  \<^verbatim>\<open>getconn\<close> or \<^verbatim>\<open>putconn\<close> with its permit never given back.
\<close>

datatype lease_pc =
    Idle
  | HasPermit
  | Leased conn
  | PutBack
  | Lost

text \<open>
  One step of one statement; the steps interleave freely. The steps are those of
  \<open>enter\<close> and \<open>exit_conn\<close>: \<open>sem_acquire\<close> (no step while it blocks), \<open>getconn\<close>,
  \<open>putconn\<close>, \<open>sem_release\<close>.
\<close>

inductive lease_step :: "world \<times> lease_pc list \<Rightarrow> world \<times> lease_pc list \<Rightarrow> bool" where
  acquire:
    "i < length pcs \<Longrightarrow> pcs ! i = Idle \<Longrightarrow> sem_acquire w = (Returns (), w') \<Longrightarrow>
     lease_step (w, pcs) (w', pcs[i := HasPermit])"
| checkout:
    "i < length pcs \<Longrightarrow> pcs ! i = HasPermit \<Longrightarrow> getconn env w = (Returns c, w') \<Longrightarrow>
     lease_step (w, pcs) (w', pcs[i := Leased c])"
| checkout_raises:
    "i < length pcs \<Longrightarrow> pcs ! i = HasPermit \<Longrightarrow> getconn env w = (Raises e, w') \<Longrightarrow>
     lease_step (w, pcs) (w', pcs[i := Lost])"
| putback:
    "i < length pcs \<Longrightarrow> pcs ! i = Leased c \<Longrightarrow> putconn (Some c) w = (Returns (), w') \<Longrightarrow>
     lease_step (w, pcs) (w', pcs[i := PutBack])"
| putback_raises:
    "i < length pcs \<Longrightarrow> pcs ! i = Leased c \<Longrightarrow> putconn (Some c) w = (Raises e, w') \<Longrightarrow>
     lease_step (w, pcs) (w', pcs[i := Lost])"
| release:
    "i < length pcs \<Longrightarrow> pcs ! i = PutBack \<Longrightarrow> sem_release w = (Returns (), w') \<Longrightarrow>
     lease_step (w, pcs) (w', pcs[i := Idle])"






subsection \<open>Sample collaborators\<close>

text \<open>
  A world before the first \<^verbatim>\<open>Connection()\<close>, a world with the pool of two connections
  installed, collaborators that never raise, and collaborators whose \<^verbatim>\<open>cursor.execute\<close>
  raises.
\<close>

definition world_start :: world where
  "world_start = \<lparr>pool = None, sem_remaining = None, init_lock = False, trace = []\<rparr>"

definition world_ready :: world where
  "world_ready = \<lparr>pool = Some [], sem_remaining = Some 2, init_lock = False, trace = []\<rparr>"

definition env_ok :: env where
  "env_ok =
     \<lparr>config_section = Inr [(''host'', ''db''), (''minconn'', ''1''), (''maxconn'', ''2'')],
      new_pool = (\<lambda>cfg. None),
      getconn_res = (\<lambda>used. Inr (length used)),
      connect_res = (\<lambda>args cfg. Inr 100),
      cursor_res = None,
      execute_res = (\<lambda>sql. None),
      fetchall_res = Inr [[PyInt 1, PyStr ''x'']],
      commit_res = None,
      close_res = None\<rparr>"

definition env_failing :: env where
  "env_failing = env_ok\<lparr>execute_res := (\<lambda>sql. Some (External ''syntax error''))\<rparr>"

definition env_exhausted :: env where
  "env_exhausted = env_ok\<lparr>getconn_res := (\<lambda>used. Inl PoolError)\<rparr>"

text \<open>
  A configuration with no \<^verbatim>\<open>maxconn\<close>, a database that refuses the connections of a
  new pool, and a configuration file without the section.
\<close>

definition env_default :: env where
  "env_default = env_ok\<lparr>config_section := Inr [(''host'', ''db''), (''minconn'', ''1'')]\<rparr>"

definition env_unreachable :: env where
  "env_unreachable = env_ok\<lparr>new_pool := (\<lambda>cfg. Some (External ''connection refused''))\<rparr>"

definition env_noconfig :: env where
  "env_noconfig = env_ok\<lparr>config_section := Inl (External ''missing section'')\<rparr>"

text \<open>A configuration whose \<^verbatim>\<open>maxconn\<close> is negative.\<close>

definition env_negative :: env where
  "env_negative =
     env_ok\<lparr>config_section := Inr [(''host'', ''db''), (''minconn'', ''0''), (''maxconn'', ''-1'')]\<rparr>"

section \<open>Basic facts\<close>

lemma bind_r_simps [simp]:
  "bind_r (Returns x, w) f = f x w"
  "bind_r (Raises e, w) f = (Raises e, w)"
  "bind_r (Blocks, w) f = (Blocks, w)"
  by (simp_all add: bind_r_def)

lemmas sample_defs =
  env_ok_def env_failing_def env_exhausted_def env_default_def env_unreachable_def
  env_noconfig_def env_negative_def world_start_def world_ready_def

lemmas int_defs =
  maxconn_int_def int_of_str_def strip_def is_space_def int_unsigned_def is_digit_def

lemmas lease_defs =
  enter_def exit_conn_def sem_acquire_def sem_release_def getconn_def putconn_def emit_def

lemmas init_defs =
  init_def synchronized_def lock_acquire_def lock_release_def init_body_def build_pool_def
  build_semaphore_def config_def parse_def ThreadedConnectionPool_def raise_or_return_def
  Semaphore_def

lemmas body_defs =
  commit_body_def read_body_def fetchall_def driver_call_def

lemmas guard_defs =
  mutating_def upper_def upper_char_def

subsection \<open>The bodies of the \<^verbatim>\<open>with\<close> statements leave the pool alone\<close>

lemma commit_body_frame:
  assumes "commit_body env sql c w = (r, w')"
  shows "pool w' = pool w \<and> sem_remaining w' = sem_remaining w \<and>
         init_lock w' = init_lock w \<and> r \<noteq> Blocks"
  using assms
  by (auto simp: commit_body_def driver_call_def emit_def split: option.splits)

lemma read_body_frame:
  assumes "read_body env sql c w = (r, w')"
  shows "pool w' = pool w \<and> sem_remaining w' = sem_remaining w \<and>
         init_lock w' = init_lock w \<and> r \<noteq> Blocks"
  using assms
  by (auto simp: read_body_def fetchall_def driver_call_def emit_def
           split: option.splits sum.splits)

lemma read_body_returns:
  assumes "cursor_res env = None" and "execute_res env sql = None"
    and "fetchall_res env = Inr rows" and "close_res env = None"
  shows "read_body env sql c w =
           (Returns rows,
            w\<lparr>trace := trace w @ [Cursor c, Execute c sql, Fetchall c, CursorClose c]\<rparr>)"
  using assms by (simp add: read_body_def fetchall_def driver_call_def emit_def)

subsection \<open>Entering and leaving\<close>

lemma enter_returns:
  assumes "enter env w = (Returns c, w')"
  shows "\<exists>n used. sem_remaining w = Some (Suc n) \<and> pool w = Some used \<and>
           w' = w\<lparr>pool := Some (c # used), sem_remaining := Some n,
                   trace := trace w @ [SemAcquire, Getconn]\<rparr>"
  using assms
  by (cases "sem_remaining w"; cases "pool w")
     (auto simp: enter_def sem_acquire_def getconn_def emit_def split: if_splits sum.splits
           intro: exI [of _ "the (sem_remaining w) - 1"])

lemma exit_conn_after_body:
  assumes "pool w = Some (c # used)" and "sem_remaining w = Some n"
  shows "exit_conn (Some c) w =
           (Returns (), w\<lparr>pool := Some used, sem_remaining := Some (Suc n),
                           trace := trace w @ [Putconn (Some c), SemRelease]\<rparr>)"
  using assms by (simp add: exit_conn_def putconn_def sem_release_def emit_def)

text \<open>
  Once \<^verbatim>\<open>__enter__\<close> has returned, the \<^verbatim>\<open>with\<close> statement ends the way its body
  ends, with the connection put back and the permit given back after the body.
\<close>

lemma with_connection_after_enter:
  assumes i: "init env w = (Returns (), w1)"
    and e: "enter env w1 = (Returns c, w2)"
    and b: "body c w2 = (r, w3)"
    and nb: "r \<noteq> Blocks"
    and fp: "pool w3 = pool w2"
    and fs: "sem_remaining w3 = sem_remaining w2"
  shows "with_connection env body w =
           (r, w3\<lparr>pool := pool w1, sem_remaining := sem_remaining w1,
                   trace := trace w3 @ [Putconn (Some c), SemRelease]\<rparr>)"
proof -
  from enter_returns [OF e] obtain n used where
    s1: "sem_remaining w1 = Some (Suc n)" and p1: "pool w1 = Some used" and
    w2: "w2 = w1\<lparr>pool := Some (c # used), sem_remaining := Some n,
                   trace := trace w1 @ [SemAcquire, Getconn]\<rparr>"
    by blast
  have p3: "pool w3 = Some (c # used)" using fp w2 by simp
  have s3: "sem_remaining w3 = Some n" using fs w2 by simp
  show ?thesis
    using nb
    by (cases r)
       (simp_all add: with_connection_def i e b exit_conn_after_body [OF p3 s3] s1 p1)
qed

lemma init_when_pool_set:
  assumes "pool w = Some p" and "\<not> init_lock w"
  shows "init env w = (Returns (), w)"
  using assms
  by (cases w) (simp add: init_def synchronized_def lock_acquire_def lock_release_def init_body_def)

subsection \<open>The first construction\<close>

lemma init_when_locked: "init_lock w \<Longrightarrow> init env w = (Blocks, w)"
  by (simp add: init_def synchronized_def lock_acquire_def)

lemma init_succeeds:
  assumes "pool w = None" and "\<not> init_lock w"
    and "config_section env = Inr cfg" and "pool_error env cfg = None"
    and "maxconn_int cfg = Inr v" and "0 \<le> v"
  shows "init env w =
           (Returns (),
            w\<lparr>pool := Some [], sem_remaining := Some (nat v),
               trace := trace w @ [Parse [], NewPool cfg None, Parse [], NewSemaphore v None]\<rparr>)"
  using assms by (simp add: init_defs emit_def)

lemma init_fails_config:
  assumes "pool w = None" and "\<not> init_lock w" and "config_section env = Inl e"
  shows "init env w = (Raises e, w\<lparr>trace := trace w @ [Parse []]\<rparr>)"
  using assms by (cases w) (simp add: init_defs emit_def)

lemma init_fails_pool:
  assumes "pool w = None" and "\<not> init_lock w" and "config_section env = Inr cfg"
    and "pool_error env cfg = Some e"
  shows "init env w = (Raises e, w\<lparr>trace := trace w @ [Parse [], NewPool cfg (Some e)]\<rparr>)"
  using assms by (cases w) (simp add: init_defs emit_def)

lemma init_fails_semaphore:
  assumes "pool w = None" and "\<not> init_lock w"
    and "config_section env = Inr cfg" and "pool_error env cfg = None"
    and "maxconn_int cfg = Inr v" and "v < 0"
  shows "init env w =
           (Raises ValueError,
            w\<lparr>pool := Some [],
               trace := trace w @ [Parse [], NewPool cfg None, Parse [],
                                   NewSemaphore v (Some ValueError)]\<rparr>)"
  using assms by (cases w) (simp add: init_defs emit_def)

lemma init_fails_before_pool:
  assumes "pool w = None" and "\<not> init_lock w"
    and "config_section env = Inl e \<or> (config_section env = Inr cfg \<and> pool_error env cfg = Some e)"
  shows "\<exists>tr. init env w = (Raises e, w\<lparr>trace := trace w @ tr\<rparr>)"
  using assms init_fails_config [of w env e] init_fails_pool [of w env cfg e] by blast

lemma init_returns:
  assumes "pool w = None" and "\<not> init_lock w" and "init env w = (Returns (), w')"
  shows "\<exists>cfg v. config_section env = Inr cfg \<and> pool_error env cfg = None \<and>
           maxconn_int cfg = Inr v \<and> 0 \<le> v \<and>
           w' = w\<lparr>pool := Some [], sem_remaining := Some (nat v),
                   trace := trace w @ [Parse [], NewPool cfg None, Parse [], NewSemaphore v None]\<rparr>"
  using assms
  by (auto simp: init_defs emit_def split: sum.splits option.splits if_splits)

subsection \<open>Reading integers\<close>

lemma of_char_digit_char: "d < 10 \<Longrightarrow> (of_char (digit_char d) :: nat) = 48 + d"
  by (simp add: digit_char_def)

lemma is_digit_digit_char: "d < 10 \<Longrightarrow> is_digit (digit_char d)"
  by (simp add: is_digit_def of_char_digit_char)

lemma is_digit_not_underscore: "is_digit c \<Longrightarrow> c \<noteq> CHR ''_''"
  by (auto simp: is_digit_def)

lemma is_digit_not_space: "is_digit c \<Longrightarrow> \<not> is_space c"
  by (auto simp: is_digit_def is_space_def Let_def)

lemma is_digit_not_sign: "is_digit c \<Longrightarrow> c \<noteq> CHR ''-'' \<and> c \<noteq> CHR ''+''"
  by (auto simp: is_digit_def)

lemma dec_digits_digits: "list_all is_digit (dec_digits n) \<and> dec_digits n \<noteq> []"
proof (induction n rule: dec_digits.induct)
  case (1 n)
  then show ?case
    by (subst (1 2) dec_digits.simps) (auto simp: is_digit_digit_char)
qed

lemma int_digits_snoc:
  "list_all is_digit ds \<Longrightarrow> is_digit c \<Longrightarrow>
   int_digits acc (ds @ [c]) = map_option (\<lambda>m. m * 10 + (of_char c - 48)) (int_digits acc ds)"
proof (induction ds arbitrary: acc)
  case Nil
  then show ?case by (simp add: is_digit_not_underscore)
next
  case (Cons d ds)
  then show ?case by (simp add: is_digit_not_underscore)
qed

lemma int_digits_dec_digits: "int_digits 0 (dec_digits n) = Some n"
proof (induction n rule: dec_digits.induct)
  case (1 n)
  show ?case
  proof (cases "n < 10")
    case True
    then show ?thesis
      by (subst dec_digits.simps)
         (simp add: is_digit_digit_char is_digit_not_underscore of_char_digit_char)
  next
    case False
    with 1 have ih: "int_digits 0 (dec_digits (n div 10)) = Some (n div 10)" by simp
    have d: "is_digit (digit_char (n mod 10))" by (simp add: is_digit_digit_char)
    from False have "dec_digits n = dec_digits (n div 10) @ [digit_char (n mod 10)]"
      by (subst dec_digits.simps) simp
    then show ?thesis
      using int_digits_snoc [OF conjunct1 [OF dec_digits_digits] d, of 0 "n div 10"] ih
      by (simp add: of_char_digit_char)
  qed
qed

lemma int_unsigned_dec_digits: "int_unsigned (dec_digits n) = Some n"
  using dec_digits_digits [of n] int_digits_dec_digits [of n]
  by (cases "dec_digits n") (auto simp: int_unsigned_def)

lemma strip_no_space:
  assumes "s \<noteq> []" and "\<not> is_space (hd s)" and "\<not> is_space (last s)"
  shows "strip s = s"
proof -
  from assms have a: "dropWhile is_space s = s" by (cases s) auto
  from assms have "dropWhile is_space (rev s) = rev s"
    by (cases s rule: rev_cases) auto
  with a show ?thesis by (simp add: strip_def)
qed

lemma strip_dec_digits: "strip (dec_digits n) = dec_digits n"
proof -
  from dec_digits_digits [of n] have "is_digit (hd (dec_digits n))" "is_digit (last (dec_digits n))"
    by (auto simp: list_all_iff)
  with dec_digits_digits [of n] show ?thesis
    by (intro strip_no_space) (auto dest: is_digit_not_space)
qed

lemma strip_minus_dec_digits: "strip (CHR ''-'' # dec_digits n) = CHR ''-'' # dec_digits n"
proof -
  from dec_digits_digits [of n] have "is_digit (last (dec_digits n))"
    by (auto simp: list_all_iff)
  with dec_digits_digits [of n] show ?thesis
    by (intro strip_no_space) (auto dest: is_digit_not_space simp: is_space_def)
qed

text \<open>\<^verbatim>\<open>int()\<close> reads back the decimal text that \<^verbatim>\<open>repr\<close> writes for an integer.\<close>

lemma int_of_str_repr_int: "int_of_str (repr_int i) = Inr i"
proof (cases "i < 0")
  case True
  then show ?thesis
    by (simp add: repr_int_def int_of_str_def strip_minus_dec_digits int_unsigned_dec_digits)
next
  case False
  obtain c cs where d: "dec_digits (nat i) = c # cs"
    using dec_digits_digits [of "nat i"] by (cases "dec_digits (nat i)") auto
  with dec_digits_digits [of "nat i"] have "is_digit c" by simp
  then have "c \<noteq> CHR ''-''" "c \<noteq> CHR ''+''" using is_digit_not_sign by blast+
  with False d int_unsigned_dec_digits [of "nat i"] strip_dec_digits [of "nat i"] show ?thesis
    by (simp add: repr_int_def int_of_str_def)
qed

subsection \<open>Joining and the guard\<close>

lemma join_nonempty: "parts \<noteq> [] \<Longrightarrow> hd parts \<noteq> [] \<Longrightarrow> join sep parts \<noteq> []"
  by (induction sep parts rule: join.induct) auto

lemma value_tuples_sql_nonempty:
  "value_tuples \<noteq> [] \<Longrightarrow> value_tuples_sql value_tuples \<noteq> []"
  unfolding value_tuples_sql_def
  by (rule join_nonempty) (auto simp: render_tuple_def hd_map)

lemma contains_iff_sublist: "contains keyword s = sublist keyword s"
proof (induction s)
  case Nil
  then show ?case by auto
next
  case (Cons c cs)
  then show ?case by (auto simp: sublist_Cons_right)
qed

lemma mutating_iff:
  "mutating sql \<longleftrightarrow> sublist ''INSERT'' (upper sql) \<or> sublist ''UPDATE'' (upper sql)"
  by (simp add: mutating_def contains_iff_sublist)

lemma not_mutating_select: "\<not> mutating ''SELECT 1''"
  by (simp add: guard_defs)

lemma mutating_update: "mutating ''update t set a = 1''"
  by code_simp

lemma sql_execute_commit_ready:
  "sql_execute_commit env_ok sql world_ready =
     (Returns (),
      world_ready\<lparr>trace := [SemAcquire, Getconn, Cursor 0, Execute 0 sql, Commit 0,
                             CursorClose 0, Putconn (Some 0), SemRelease]\<rparr>)"
  by (simp add: sql_execute_commit_def with_connection_def init_when_pool_set lease_defs
      body_defs sample_defs)

section \<open>The bulk insert\<close>

text \<open>
  With duplicates ignored, a non-empty list of rows gives one call of
  \<^verbatim>\<open>sql_execute_commit\<close>, on the base text, a space, the rendered tuples joined by
  \<open>", "\<close> in input order, and the conflict clause.
\<close>

lemma sql_execute_values_with_ignore:
  "value_tuples \<noteq> [] \<Longrightarrow>
   sql_execute_values env sql value_tuples True w =
     sql_execute_commit env
       (sql @ '' '' @ join '', '' (map render_tuple value_tuples) @ '' ON CONFLICT DO NOTHING'') w"
  using value_tuples_sql_nonempty [of value_tuples]
  by (simp add: sql_execute_values_def values_statement_def Let_def value_tuples_sql_def)

text \<open>
  C1. The claim has the statement keep the rendered value tuples when
  \<^verbatim>\<open>ignore_duplicate\<close> is false, only without the conflict clause. The code does not:
  for every non-empty list of rows and \<^verbatim>\<open>ignore_duplicate\<close> false, the statement
  handed to \<^verbatim>\<open>sql_execute_commit\<close> is the base text alone, with no value tuple in it.
\<close>

theorem sql_execute_values_without_ignore:
  "value_tuples \<noteq> [] \<Longrightarrow>
   sql_execute_values env sql value_tuples False w = sql_execute_commit env sql w"
  using value_tuples_sql_nonempty [of value_tuples]
  by (simp add: sql_execute_values_def values_statement_def Let_def)

theorem sql_execute_values_without_ignore_witness:
  "[[PyInt 1, PyStr ''x'']] \<noteq> [] \<and>
   sql_execute_values env_ok ''INSERT INTO t(a,b) VALUES'' [[PyInt 1, PyStr ''x'']] False world_ready =
     (Returns (),
      world_ready\<lparr>trace := [SemAcquire, Getconn, Cursor 0, Execute 0 ''INSERT INTO t(a,b) VALUES'',
                             Commit 0, CursorClose 0, Putconn (Some 0), SemRelease]\<rparr>)"
proof -
  have "sql_execute_values env_ok ''INSERT INTO t(a,b) VALUES'' [[PyInt 1, PyStr ''x'']] False world_ready =
        sql_execute_commit env_ok ''INSERT INTO t(a,b) VALUES'' world_ready"
    by (rule sql_execute_values_without_ignore) simp
  then show ?thesis by (simp add: sql_execute_commit_ready)
qed

text \<open>
  C8. For the empty list of rows, whatever the base text and \<^verbatim>\<open>ignore_duplicate\<close>,
  \<^verbatim>\<open>sql_execute_values\<close> returns with the pool, the semaphore and the lock untouched,
  and the one call it has issued is the logger's \<^verbatim>\<open>info\<close>: no \<^verbatim>\<open>Connection()\<close>, no
  lease, no \<^verbatim>\<open>sql_execute_commit\<close>, no call to the database.
\<close>

theorem sql_execute_values_empty:
  "sql_execute_values env sql [] ignore_duplicate w =
     (Returns (), w\<lparr>trace := trace w @ [LogInfo ''[DATABASE] Nothing to commit'']\<rparr>)"
  by (simp add: sql_execute_values_def value_tuples_sql_def emit_def)

section \<open>Errors inside a lease\<close>

text \<open>
  C2. When \<^verbatim>\<open>__enter__\<close> has returned a connection and the body of
  \<^verbatim>\<open>sql_execute_commit\<close> (cursor, execute, commit, close) or of \<^verbatim>\<open>sql_execute\<close>
  (cursor, execute, fetchall, close) raises \<open>e\<close>, the call raises the same \<open>e\<close>, and
  before that the connection is put back and the permit is given back: the pool and the
  semaphore are as they were before the lease, and the last two calls of the trace are
  \<^verbatim>\<open>putconn\<close> and \<^verbatim>\<open>release\<close>.
\<close>

theorem error_releases_lease:
  assumes "init env w = (Returns (), w1)" and "enter env w1 = (Returns c, w2)"
  shows "(commit_body env sql c w2 = (Raises e, w3) \<longrightarrow>
            sql_execute_commit env sql w =
              (Raises e, w3\<lparr>pool := pool w1, sem_remaining := sem_remaining w1,
                             trace := trace w3 @ [Putconn (Some c), SemRelease]\<rparr>)) \<and>
         (\<not> mutating sql \<and> read_body env sql c w2 = (Raises e, w3) \<longrightarrow>
            sql_execute env sql w =
              (Raises e, w3\<lparr>pool := pool w1, sem_remaining := sem_remaining w1,
                             trace := trace w3 @ [Putconn (Some c), SemRelease]\<rparr>))"
proof (intro conjI impI)
  assume b: "commit_body env sql c w2 = (Raises e, w3)"
  from commit_body_frame [OF b] show "sql_execute_commit env sql w =
      (Raises e, w3\<lparr>pool := pool w1, sem_remaining := sem_remaining w1,
                     trace := trace w3 @ [Putconn (Some c), SemRelease]\<rparr>)"
    unfolding sql_execute_commit_def
    by (intro with_connection_after_enter [where body = "commit_body env sql", OF assms b]) simp_all
next
  assume "\<not> mutating sql \<and> read_body env sql c w2 = (Raises e, w3)"
  then have m: "\<not> mutating sql" and b: "read_body env sql c w2 = (Raises e, w3)" by simp_all
  from read_body_frame [OF b] have "with_connection env (read_body env sql) w =
      (Raises e, w3\<lparr>pool := pool w1, sem_remaining := sem_remaining w1,
                     trace := trace w3 @ [Putconn (Some c), SemRelease]\<rparr>)"
    by (intro with_connection_after_enter [where body = "read_body env sql", OF assms b]) simp_all
  with m show "sql_execute env sql w =
      (Raises e, w3\<lparr>pool := pool w1, sem_remaining := sem_remaining w1,
                     trace := trace w3 @ [Putconn (Some c), SemRelease]\<rparr>)"
    by (simp add: sql_execute_def)
qed

theorem error_releases_lease_witness:
  "init env_failing world_ready = (Returns (), world_ready) \<and>
   enter env_failing world_ready =
     (Returns 0, world_ready\<lparr>pool := Some [0], sem_remaining := Some 1,
                              trace := [SemAcquire, Getconn]\<rparr>) \<and>
   commit_body env_failing ''DELETE FROM t'' 0
       (world_ready\<lparr>pool := Some [0], sem_remaining := Some 1, trace := [SemAcquire, Getconn]\<rparr>) =
     (Raises (External ''syntax error''),
      world_ready\<lparr>pool := Some [0], sem_remaining := Some 1,
                   trace := [SemAcquire, Getconn, Cursor 0, Execute 0 ''DELETE FROM t'']\<rparr>) \<and>
   sql_execute_commit env_failing ''DELETE FROM t'' world_ready =
     (Raises (External ''syntax error''),
      world_ready\<lparr>trace := [SemAcquire, Getconn, Cursor 0, Execute 0 ''DELETE FROM t'',
                             Putconn (Some 0), SemRelease]\<rparr>) \<and>
   \<not> mutating ''SELECT 1'' \<and>
   read_body env_failing ''SELECT 1'' 0
       (world_ready\<lparr>pool := Some [0], sem_remaining := Some 1, trace := [SemAcquire, Getconn]\<rparr>) =
     (Raises (External ''syntax error''),
      world_ready\<lparr>pool := Some [0], sem_remaining := Some 1,
                   trace := [SemAcquire, Getconn, Cursor 0, Execute 0 ''SELECT 1'']\<rparr>) \<and>
   sql_execute env_failing ''SELECT 1'' world_ready =
     (Raises (External ''syntax error''),
      world_ready\<lparr>trace := [SemAcquire, Getconn, Cursor 0, Execute 0 ''SELECT 1'',
                             Putconn (Some 0), SemRelease]\<rparr>)"
proof -
  let ?w2 = "world_ready\<lparr>pool := Some [0], sem_remaining := Some 1, trace := [SemAcquire, Getconn]\<rparr>"
  have i: "init env_failing world_ready = (Returns (), world_ready)"
    by (rule init_when_pool_set [of _ "[]"]) (simp_all add: world_ready_def)
  have e: "enter env_failing world_ready = (Returns 0, ?w2)"
    by (simp add: lease_defs sample_defs)
  have c: "commit_body env_failing ''DELETE FROM t'' 0 ?w2 =
     (Raises (External ''syntax error''),
      world_ready\<lparr>pool := Some [0], sem_remaining := Some 1,
                   trace := [SemAcquire, Getconn, Cursor 0, Execute 0 ''DELETE FROM t'']\<rparr>)"
    by (simp add: body_defs emit_def sample_defs)
  have r: "read_body env_failing ''SELECT 1'' 0 ?w2 =
     (Raises (External ''syntax error''),
      world_ready\<lparr>pool := Some [0], sem_remaining := Some 1,
                   trace := [SemAcquire, Getconn, Cursor 0, Execute 0 ''SELECT 1'']\<rparr>)"
    by (simp add: body_defs emit_def sample_defs)
  note t1 = error_releases_lease [OF i e, of "''DELETE FROM t''" "External ''syntax error''"
      "world_ready\<lparr>pool := Some [0], sem_remaining := Some 1,
                   trace := [SemAcquire, Getconn, Cursor 0, Execute 0 ''DELETE FROM t'']\<rparr>"]
  note t2 = error_releases_lease [OF i e, of "''SELECT 1''" "External ''syntax error''"
      "world_ready\<lparr>pool := Some [0], sem_remaining := Some 1,
                   trace := [SemAcquire, Getconn, Cursor 0, Execute 0 ''SELECT 1'']\<rparr>"]
  have x1: "sql_execute_commit env_failing ''DELETE FROM t'' world_ready =
     (Raises (External ''syntax error''),
      world_ready\<lparr>trace := [SemAcquire, Getconn, Cursor 0, Execute 0 ''DELETE FROM t'',
                             Putconn (Some 0), SemRelease]\<rparr>)"
    using t1 c by (simp add: world_ready_def)
  have x2: "sql_execute env_failing ''SELECT 1'' world_ready =
     (Raises (External ''syntax error''),
      world_ready\<lparr>trace := [SemAcquire, Getconn, Cursor 0, Execute 0 ''SELECT 1'',
                             Putconn (Some 0), SemRelease]\<rparr>)"
    using t2 r not_mutating_select by (simp add: world_ready_def)
  from i e c r x1 x2 not_mutating_select show ?thesis by blast
qed

text \<open>
  C10. When the semaphore has a permit and \<^verbatim>\<open>getconn\<close> raises \<open>e\<close>, \<^verbatim>\<open>__enter__\<close>
  raises \<open>e\<close> with one permit fewer than before and the pool's checkouts unchanged: the
  permit taken just before is not given back. A \<^verbatim>\<open>with\<close> statement on such an object
  ends there, without \<^verbatim>\<open>__exit__\<close>, so nothing gives the permit back afterwards.
\<close>

theorem enter_getconn_raises_keeps_permit:
  assumes "sem_remaining w = Some (Suc n)" and "pool w = Some used" and "\<not> init_lock w"
    and "getconn_res env used = Inl e"
  shows "enter env w =
           (Raises e, w\<lparr>sem_remaining := Some n, trace := trace w @ [SemAcquire, Getconn]\<rparr>) \<and>
         with_connection env body w =
           (Raises e, w\<lparr>sem_remaining := Some n, trace := trace w @ [SemAcquire, Getconn]\<rparr>)"
  using assms
  by (simp add: with_connection_def init_when_pool_set enter_def sem_acquire_def getconn_def emit_def)

theorem enter_getconn_raises_keeps_permit_witness:
  "sem_remaining world_ready = Some (Suc 1) \<and> pool world_ready = Some [] \<and>
   \<not> init_lock world_ready \<and> getconn_res env_exhausted [] = Inl PoolError \<and>
   enter env_exhausted world_ready =
     (Raises PoolError, world_ready\<lparr>sem_remaining := Some 1, trace := [SemAcquire, Getconn]\<rparr>) \<and>
   sql_execute_commit env_exhausted ''DELETE FROM t'' world_ready =
     (Raises PoolError, world_ready\<lparr>sem_remaining := Some 1, trace := [SemAcquire, Getconn]\<rparr>)"
proof -
  have h: "sem_remaining world_ready = Some (Suc 1)" "pool world_ready = Some []"
    "\<not> init_lock world_ready" "getconn_res env_exhausted [] = Inl PoolError"
    by (simp_all add: sample_defs)
  note t = enter_getconn_raises_keeps_permit [OF h, of "commit_body env_exhausted ''DELETE FROM t''"]
  from t h show ?thesis by (simp add: sql_execute_commit_def world_ready_def)
qed

section \<open>The read helper and its guard\<close>

text \<open>
  C3. If the upper-cased text has \<open>INSERT\<close> or \<open>UPDATE\<close> as a contiguous part,
  \<^verbatim>\<open>sql_execute\<close> returns the empty sequence, and the one call it has issued is the
  logger's \<^verbatim>\<open>error\<close>: nothing is constructed, acquired or executed, and nothing is
  raised. For any other text, when the lease is acquired and the driver calls return,
  it returns the rows \<^verbatim>\<open>fetchall\<close> gave, after the calls acquire, getconn, cursor,
  execute, fetchall, close, putconn, release in this order, with pool and semaphore as
  before the lease.
\<close>

theorem sql_execute_guard:
  "(sublist ''INSERT'' (upper sql) \<or> sublist ''UPDATE'' (upper sql) \<longrightarrow>
      sql_execute env sql w =
        (Returns [], w\<lparr>trace := trace w @ [LogError ''You are running INSERT or UPDATE without committing, transaction aborted. Please retry with sql_execute_commit'']\<rparr>)) \<and>
   (\<not> (sublist ''INSERT'' (upper sql) \<or> sublist ''UPDATE'' (upper sql)) \<and>
    init env w = (Returns (), w1) \<and> enter env w1 = (Returns c, w2) \<and>
    cursor_res env = None \<and> execute_res env sql = None \<and> fetchall_res env = Inr rows \<and>
    close_res env = None \<longrightarrow>
      sql_execute env sql w =
        (Returns rows,
         w1\<lparr>trace := trace w1 @ [SemAcquire, Getconn, Cursor c, Execute c sql, Fetchall c,
                                  CursorClose c, Putconn (Some c), SemRelease]\<rparr>))"
proof (intro conjI impI)
  assume "sublist ''INSERT'' (upper sql) \<or> sublist ''UPDATE'' (upper sql)"
  then have "mutating sql" by (simp add: mutating_iff)
  then show "sql_execute env sql w =
        (Returns [], w\<lparr>trace := trace w @ [LogError ''You are running INSERT or UPDATE without committing, transaction aborted. Please retry with sql_execute_commit'']\<rparr>)"
    by (simp add: sql_execute_def emit_def)
next
  assume a: "\<not> (sublist ''INSERT'' (upper sql) \<or> sublist ''UPDATE'' (upper sql)) \<and>
    init env w = (Returns (), w1) \<and> enter env w1 = (Returns c, w2) \<and>
    cursor_res env = None \<and> execute_res env sql = None \<and> fetchall_res env = Inr rows \<and>
    close_res env = None"
  then have m: "\<not> mutating sql" by (simp add: mutating_iff)
  from a have i: "init env w = (Returns (), w1)" and e: "enter env w1 = (Returns c, w2)"
    by simp_all
  from a have b: "read_body env sql c w2 =
      (Returns rows, w2\<lparr>trace := trace w2 @ [Cursor c, Execute c sql, Fetchall c, CursorClose c]\<rparr>)"
    by (intro read_body_returns) simp_all
  from enter_returns [OF e] obtain n used where
    w2: "w2 = w1\<lparr>pool := Some (c # used), sem_remaining := Some n,
                   trace := trace w1 @ [SemAcquire, Getconn]\<rparr>"
    and s1: "sem_remaining w1 = Some (Suc n)" and p1: "pool w1 = Some used"
    by blast
  have "with_connection env (read_body env sql) w =
      (Returns rows, (w2\<lparr>trace := trace w2 @ [Cursor c, Execute c sql, Fetchall c, CursorClose c]\<rparr>)
         \<lparr>pool := pool w1, sem_remaining := sem_remaining w1,
          trace := trace (w2\<lparr>trace := trace w2 @ [Cursor c, Execute c sql, Fetchall c, CursorClose c]\<rparr>)
                     @ [Putconn (Some c), SemRelease]\<rparr>)"
    by (intro with_connection_after_enter [where body = "read_body env sql", OF i e b]) simp_all
  with m show "sql_execute env sql w =
        (Returns rows,
         w1\<lparr>trace := trace w1 @ [SemAcquire, Getconn, Cursor c, Execute c sql, Fetchall c,
                                  CursorClose c, Putconn (Some c), SemRelease]\<rparr>)"
    by (simp add: sql_execute_def w2 s1 p1)
qed

theorem sql_execute_guard_witness:
  "(sublist ''INSERT'' (upper ''update t set a = 1'') \<or>
    sublist ''UPDATE'' (upper ''update t set a = 1'')) \<and>
   sql_execute env_ok ''update t set a = 1'' world_ready =
     (Returns [], world_ready\<lparr>trace := [LogError ''You are running INSERT or UPDATE without committing, transaction aborted. Please retry with sql_execute_commit'']\<rparr>) \<and>
   \<not> (sublist ''INSERT'' (upper ''SELECT 1'') \<or> sublist ''UPDATE'' (upper ''SELECT 1'')) \<and>
   init env_ok world_ready = (Returns (), world_ready) \<and>
   enter env_ok world_ready =
     (Returns 0, world_ready\<lparr>pool := Some [0], sem_remaining := Some 1,
                              trace := [SemAcquire, Getconn]\<rparr>) \<and>
   cursor_res env_ok = None \<and> execute_res env_ok ''SELECT 1'' = None \<and>
   fetchall_res env_ok = Inr [[PyInt 1, PyStr ''x'']] \<and> close_res env_ok = None \<and>
   sql_execute env_ok ''SELECT 1'' world_ready =
     (Returns [[PyInt 1, PyStr ''x'']],
      world_ready\<lparr>trace := [SemAcquire, Getconn, Cursor 0, Execute 0 ''SELECT 1'', Fetchall 0,
                             CursorClose 0, Putconn (Some 0), SemRelease]\<rparr>)"
proof -
  have m1: "sublist ''INSERT'' (upper ''update t set a = 1'') \<or>
            sublist ''UPDATE'' (upper ''update t set a = 1'')"
    by (rule mutating_update [unfolded mutating_iff])
  have m2: "\<not> (sublist ''INSERT'' (upper ''SELECT 1'') \<or> sublist ''UPDATE'' (upper ''SELECT 1''))"
    by (rule not_mutating_select [unfolded mutating_iff])
  have i: "init env_ok world_ready = (Returns (), world_ready)"
    by (rule init_when_pool_set [of _ "[]"]) (simp_all add: world_ready_def)
  have e: "enter env_ok world_ready =
     (Returns 0, world_ready\<lparr>pool := Some [0], sem_remaining := Some 1,
                              trace := [SemAcquire, Getconn]\<rparr>)"
    by (simp add: lease_defs sample_defs)
  have r: "cursor_res env_ok = None \<and> execute_res env_ok ''SELECT 1'' = None \<and>
           fetchall_res env_ok = Inr [[PyInt 1, PyStr ''x'']] \<and> close_res env_ok = None"
    by (simp add: env_ok_def)
  note g = sql_execute_guard [of "''update t set a = 1''" env_ok world_ready]
  note h = sql_execute_guard [of "''SELECT 1''" env_ok world_ready world_ready 0 _ "[[PyInt 1, PyStr ''x'']]"]
  have x1: "sql_execute env_ok ''update t set a = 1'' world_ready =
     (Returns [], world_ready\<lparr>trace := [LogError ''You are running INSERT or UPDATE without committing, transaction aborted. Please retry with sql_execute_commit'']\<rparr>)"
    using g m1 by (simp add: world_ready_def)
  have x2: "sql_execute env_ok ''SELECT 1'' world_ready =
     (Returns [[PyInt 1, PyStr ''x'']],
      world_ready\<lparr>trace := [SemAcquire, Getconn, Cursor 0, Execute 0 ''SELECT 1'', Fetchall 0,
                             CursorClose 0, Putconn (Some 0), SemRelease]\<rparr>)"
    using h m2 i e r by (simp add: world_ready_def)
  from m1 m2 i e r x1 x2 show ?thesis by blast
qed

section \<open>Constructing the pool\<close>

text \<open>
  When the first construction returns, the configuration has a \<^verbatim>\<open>maxconn\<close> and the
  semaphore installed holds as many permits as the integer \<^verbatim>\<open>int()\<close> reads from it.
\<close>

lemma semaphore_sized_by_maxconn:
  assumes "pool w = None" and "\<not> init_lock w" and "init env w = (Returns (), w')"
    and "config_section env = Inr cfg"
  shows "\<exists>s v. map_of cfg ''maxconn'' = Some s \<and> int_of_str s = Inr v \<and> 0 \<le> v \<and>
           sem_remaining w' = Some (nat v)"
  using init_returns [OF assms(1-3)] assms(4)
  by (auto simp: maxconn_int_def pool_error_def split: if_splits)

text \<open>
  C7. The claim has the semaphore hold 4 permits when the configuration has no
  \<^verbatim>\<open>maxconn\<close>. The code does not get there: the value of
  \<^verbatim>\<open>int(self.config().get('maxconn', 4))\<close> would be 4, but the line before it hands the
  same configuration to the pool constructor, which requires \<^verbatim>\<open>maxconn\<close>, so the first
  construction raises \<^verbatim>\<open>TypeError\<close> with no pool and no semaphore installed.
\<close>

theorem default_maxconn_not_reached:
  assumes "pool w = None" and "\<not> init_lock w" and "config_section env = Inr cfg"
    and "map_of cfg ''maxconn'' = None"
  shows "maxconn_int cfg = Inr 4 \<and>
         init env w =
           (Raises TypeError, w\<lparr>trace := trace w @ [Parse [], NewPool cfg (Some TypeError)]\<rparr>)"
proof -
  from assms(4) have "pool_error env cfg = Some TypeError" by (simp add: pool_error_def)
  from init_fails_pool [OF assms(1-3) this] assms(4) show ?thesis
    by (simp add: maxconn_int_def)
qed

theorem default_maxconn_not_reached_witness:
  "pool world_start = None \<and> \<not> init_lock world_start \<and>
   config_section env_default = Inr [(''host'', ''db''), (''minconn'', ''1'')] \<and>
   map_of [(''host'', ''db''), (''minconn'', ''1'')] ''maxconn'' = None \<and>
   init env_default world_start =
     (Raises TypeError,
      \<lparr>pool = None, sem_remaining = None, init_lock = False,
       trace = [Parse [], NewPool [(''host'', ''db''), (''minconn'', ''1'')] (Some TypeError)]\<rparr>)"
proof -
  have p: "pool world_start = None" and l: "\<not> init_lock world_start"
    by (simp_all add: sample_defs)
  have c: "config_section env_default = Inr [(''host'', ''db''), (''minconn'', ''1'')]"
    by (simp add: sample_defs)
  have m: "map_of [(''host'', ''db''), (''minconn'', ''1'')] ''maxconn'' = None"
    by simp
  note t = default_maxconn_not_reached [OF p l c m]
  from t have "init env_default world_start =
     (Raises TypeError,
      \<lparr>pool = None, sem_remaining = None, init_lock = False,
       trace = [Parse [], NewPool [(''host'', ''db''), (''minconn'', ''1'')] (Some TypeError)]\<rparr>)"
    by (simp add: world_start_def)
  with p l c m show ?thesis by blast
qed

text \<open>
  When the configuration cannot be read or the pool constructor raises, the error is
  raised to the caller, \<^verbatim>\<open>_pool\<close> and \<^verbatim>\<open>_sem_remaining\<close> are still \<open>None\<close> and the lock is
  free; the next construction, with collaborators that answer, then installs both.
\<close>

lemma init_failure_installs_nothing:
  assumes "pool w = None" and "sem_remaining w = None" and "\<not> init_lock w"
    and "config_section env = Inl e \<or> (config_section env = Inr cfg \<and> pool_error env cfg = Some e)"
  shows "fst (init env w) = Raises e \<and>
         pool (snd (init env w)) = None \<and> sem_remaining (snd (init env w)) = None \<and>
         \<not> init_lock (snd (init env w)) \<and>
         (config_section env' = Inr cfg' \<and> pool_error env' cfg' = None \<and>
          maxconn_int cfg' = Inr v \<and> 0 \<le> v \<longrightarrow>
            fst (init env' (snd (init env w))) = Returns () \<and>
            pool (snd (init env' (snd (init env w)))) = Some [] \<and>
            sem_remaining (snd (init env' (snd (init env w)))) = Some (nat v))"
proof -
  from init_fails_before_pool [OF assms(1,3,4)] obtain tr where
    f: "init env w = (Raises e, w\<lparr>trace := trace w @ tr\<rparr>)" by blast
  have r: "fst (init env' (w\<lparr>trace := trace w @ tr\<rparr>)) = Returns () \<and>
           pool (snd (init env' (w\<lparr>trace := trace w @ tr\<rparr>))) = Some [] \<and>
           sem_remaining (snd (init env' (w\<lparr>trace := trace w @ tr\<rparr>))) = Some (nat v)"
    if "config_section env' = Inr cfg'" "pool_error env' cfg' = None" "maxconn_int cfg' = Inr v" "0 \<le> v"
    using assms(1,3) that
    by (subst (1 2 3) init_succeeds [where cfg = cfg' and v = v]) simp_all
  from f r show ?thesis using assms(1-3) by simp
qed

text \<open>
  C5. The claim has a failed initialization leave neither the pool handle nor the
  semaphore set, and the next construction start from scratch. The code does not when
  the failure is in the second assignment: with a negative \<^verbatim>\<open>maxconn\<close> the pool
  constructor returns and \<^verbatim>\<open>_pool\<close> is stored, then \<^verbatim>\<open>threading.Semaphore\<close> raises
  \<^verbatim>\<open>ValueError\<close>; \<^verbatim>\<open>_sem_remaining\<close> stays \<open>None\<close>, and every later construction sees the
  pool and returns without building a semaphore.
\<close>

theorem semaphore_failure_keeps_pool:
  assumes "pool w = None" and "\<not> init_lock w"
    and "config_section env = Inr cfg" and "pool_error env cfg = None"
    and "maxconn_int cfg = Inr v" and "v < 0"
  shows "init env w =
           (Raises ValueError,
            w\<lparr>pool := Some [],
               trace := trace w @ [Parse [], NewPool cfg None, Parse [],
                                   NewSemaphore v (Some ValueError)]\<rparr>) \<and>
         (\<forall>env'. init env' (snd (init env w)) = (Returns (), snd (init env w)))"
proof -
  note f = init_fails_semaphore [OF assms]
  have "init env' (snd (init env w)) = (Returns (), snd (init env w))" for env'
    by (rule init_when_pool_set [of _ "[]"]) (simp_all add: f assms(2))
  with f show ?thesis by blast
qed

theorem semaphore_failure_keeps_pool_witness:
  "pool world_start = None \<and> \<not> init_lock world_start \<and>
   config_section env_negative = Inr [(''host'', ''db''), (''minconn'', ''0''), (''maxconn'', ''-1'')] \<and>
   pool_error env_negative [(''host'', ''db''), (''minconn'', ''0''), (''maxconn'', ''-1'')] = None \<and>
   maxconn_int [(''host'', ''db''), (''minconn'', ''0''), (''maxconn'', ''-1'')] = Inr (- 1) \<and>
   init env_negative world_start =
     (Raises ValueError,
      \<lparr>pool = Some [], sem_remaining = None, init_lock = False,
       trace = [Parse [], NewPool [(''host'', ''db''), (''minconn'', ''0''), (''maxconn'', ''-1'')] None,
                Parse [], NewSemaphore (- 1) (Some ValueError)]\<rparr>) \<and>
   init env_ok
       \<lparr>pool = Some [], sem_remaining = None, init_lock = False,
        trace = [Parse [], NewPool [(''host'', ''db''), (''minconn'', ''0''), (''maxconn'', ''-1'')] None,
                 Parse [], NewSemaphore (- 1) (Some ValueError)]\<rparr> =
     (Returns (),
      \<lparr>pool = Some [], sem_remaining = None, init_lock = False,
       trace = [Parse [], NewPool [(''host'', ''db''), (''minconn'', ''0''), (''maxconn'', ''-1'')] None,
                Parse [], NewSemaphore (- 1) (Some ValueError)]\<rparr>) \<and>
   enter env_ok
       \<lparr>pool = Some [], sem_remaining = None, init_lock = False,
        trace = [Parse [], NewPool [(''host'', ''db''), (''minconn'', ''0''), (''maxconn'', ''-1'')] None,
                 Parse [], NewSemaphore (- 1) (Some ValueError)]\<rparr> =
     (Raises AttributeError,
      \<lparr>pool = Some [], sem_remaining = None, init_lock = False,
       trace = [Parse [], NewPool [(''host'', ''db''), (''minconn'', ''0''), (''maxconn'', ''-1'')] None,
                Parse [], NewSemaphore (- 1) (Some ValueError)]\<rparr>)"
proof -
  let ?cfg = "[(''host'', ''db''), (''minconn'', ''0''), (''maxconn'', ''-1'')]"
  let ?w = "\<lparr>pool = Some [], sem_remaining = None, init_lock = False,
       trace = [Parse [], NewPool ?cfg None, Parse [], NewSemaphore (- 1) (Some ValueError)]\<rparr>"
  have p: "pool world_start = None" and l: "\<not> init_lock world_start"
    by (simp_all add: sample_defs)
  have c: "config_section env_negative = Inr ?cfg"
    by (simp add: sample_defs)
  have e: "pool_error env_negative ?cfg = None"
    by (simp add: pool_error_def sample_defs)
  have m: "maxconn_int ?cfg = Inr (- 1)"
    by (simp add: int_defs)
  have n: "(- 1 :: int) < 0" by simp
  note t = semaphore_failure_keeps_pool [OF p l c e m n]
  from t have i: "init env_negative world_start = (Raises ValueError, ?w)"
    by (simp add: world_start_def)
  from t i have r: "init env_ok ?w = (Returns (), ?w)"
    by (metis snd_conv)
  have a: "enter env_ok ?w = (Raises AttributeError, ?w)"
    by (simp add: lease_defs)
  from p l c e m i r a show ?thesis by blast
qed

subsection \<open>Threads that construct at the same time\<close>

lemma lock_acquire_returns:
  "lock_acquire w = (Returns u, w') \<Longrightarrow> \<not> init_lock w \<and> w' = w\<lparr>init_lock := True\<rparr>"
  by (auto simp: lock_acquire_def split: if_splits)

lemma built_simps [simp]:
  "pools_built [] = 0"
  "pools_built (ev # tr) = (if is_new_pool ev then 1 else 0) + pools_built tr"
  "pools_built (tr @ tr') = pools_built tr + pools_built tr'"
  "semaphores_built [] = 0"
  "semaphores_built (ev # tr) = (if is_new_semaphore ev then 1 else 0) + semaphores_built tr"
  "semaphores_built (tr @ tr') = semaphores_built tr + semaphores_built tr'"
  by (simp_all add: pools_built_def semaphores_built_def)

lemma build_pool_frame:
  "build_pool env w = (r, w') \<Longrightarrow>
   pool w' = pool w \<and> sem_remaining w' = sem_remaining w \<and> init_lock w' = init_lock w \<and>
   r \<noteq> Blocks \<and> semaphores_built (trace w') = semaphores_built (trace w) \<and>
   pools_built (trace w') = pools_built (trace w) + (case r of Returns p \<Rightarrow> 1 | _ \<Rightarrow> 0)"
  by (auto simp: build_pool_def config_def parse_def ThreadedConnectionPool_def emit_def
           split: sum.splits option.splits)

lemma build_semaphore_frame:
  "build_semaphore env w = (r, w') \<Longrightarrow>
   pool w' = pool w \<and> sem_remaining w' = sem_remaining w \<and> init_lock w' = init_lock w \<and>
   r \<noteq> Blocks \<and> pools_built (trace w') = pools_built (trace w) \<and>
   semaphores_built (trace w') = semaphores_built (trace w) + (case r of Returns n \<Rightarrow> 1 | _ \<Rightarrow> 0)"
  by (auto simp: build_semaphore_def config_def parse_def raise_or_return_def Semaphore_def emit_def
           split: sum.splits option.splits if_splits)

lemma init_inv_start:
  assumes "pool w = None" and "sem_remaining w = None"
    and "pools_built (trace w) = 0" and "semaphores_built (trace w) = 0"
  shows "init_inv (w, replicate k NotStarted)"
  using assms by (auto simp: init_inv_def Let_def)

lemma init_step_inv:
  assumes "init_step s s'" and "init_inv s"
  shows "init_inv s'"
  using assms
proof (induction rule: init_step.induct)
  case (take_lock i pcs w w')
  from lock_acquire_returns [OF take_lock(3)] take_lock(1,2,4) show ?case
    unfolding init_inv_def Let_def
    by (auto simp: nth_list_update split: if_splits)
next
  case (pool_seen i pcs w p)
  then show ?case
    unfolding init_inv_def Let_def
    by (auto simp: nth_list_update split: if_splits)
next
  case (pool_missing i pcs w)
  then show ?case
    unfolding init_inv_def Let_def
    by (auto simp: nth_list_update split: if_splits)
next
  case (pool_built i pcs env w p w')
  from build_pool_frame [OF pool_built(3)] pool_built(1,2,4) show ?case
    unfolding init_inv_def Let_def
    by (auto simp: nth_list_update split: if_splits)
next
  case (pool_raises i pcs env w e w')
  from build_pool_frame [OF pool_raises(3)] pool_raises(1,2,4) show ?case
    unfolding init_inv_def Let_def
    by (auto simp: nth_list_update split: if_splits)
next
  case (semaphore_built i pcs env w n w')
  from build_semaphore_frame [OF semaphore_built(3)] semaphore_built(1,2,4) show ?case
    unfolding init_inv_def Let_def
    by (auto simp: nth_list_update split: if_splits)
next
  case (semaphore_raises i pcs env w e w')
  from build_semaphore_frame [OF semaphore_raises(3)] semaphore_raises(1,2,4) show ?case
    unfolding init_inv_def Let_def
    by (auto simp: nth_list_update split: if_splits)
next
  case (give_lock i pcs r w)
  then show ?case
    unfolding init_inv_def Let_def lock_release_def
    by (auto simp: nth_list_update split: if_splits)
qed

lemma init_run_inv:
  assumes "rtranclp init_step s s'" and "init_inv s"
  shows "init_inv s'"
  using assms by (induction rule: rtranclp_induct) (auto intro: init_step_inv)

lemma init_inv_counts:
  assumes "init_inv (w, pcs)"
  shows "pools_built (trace w) = (if pool w = None then 0 else 1) \<and>
         semaphores_built (trace w) = (if sem_remaining w = None then 0 else 1)"
  using assms by (simp add: init_inv_def Let_def)

lemma init_step_stable:
  assumes "init_step s s'" and "init_inv s"
  shows "(pool (fst s) \<noteq> None \<longrightarrow> pool (fst s') = pool (fst s)) \<and>
         (sem_remaining (fst s) \<noteq> None \<longrightarrow> sem_remaining (fst s') = sem_remaining (fst s))"
  using assms
proof (induction rule: init_step.induct)
  case (take_lock i pcs w w')
  with lock_acquire_returns [OF take_lock(3)] show ?case by simp
next
  case (pool_built i pcs env w p w')
  from pool_built(1,2,4) have "pool w = None" "sem_remaining w = None"
    unfolding init_inv_def Let_def by auto
  with build_pool_frame [OF pool_built(3)] show ?case by simp
next
  case (pool_raises i pcs env w e w')
  with build_pool_frame [OF pool_raises(3)] show ?case by simp
next
  case (semaphore_built i pcs env w n w')
  from semaphore_built(1,2,4) have "sem_remaining w = None"
    unfolding init_inv_def Let_def by auto
  with build_semaphore_frame [OF semaphore_built(3)] show ?case by simp
next
  case (semaphore_raises i pcs env w e w')
  with build_semaphore_frame [OF semaphore_raises(3)] show ?case by simp
qed (simp_all add: lock_release_def)

lemma init_run_stable:
  assumes "rtranclp init_step s s'" and "init_inv s"
  shows "(pool (fst s) \<noteq> None \<longrightarrow> pool (fst s') = pool (fst s)) \<and>
         (sem_remaining (fst s) \<noteq> None \<longrightarrow> sem_remaining (fst s') = sem_remaining (fst s))"
  using assms
proof (induction rule: rtranclp_induct)
  case base
  then show ?case by simp
next
  case (step y z)
  from init_run_inv [OF step(1) step(4)] have "init_inv y" .
  from init_step_stable [OF step(2) this] step(3) [OF step(4)] show ?case by auto
qed

text \<open>
  The function \<open>init\<close> and the steps are the same program: while the lock is held
  \<open>init\<close> blocks and a thread that has not started stays where it is; with the lock
  free, what \<open>init\<close> computes is a run of one thread through its steps.
\<close>

lemma init_step_waits_for_lock:
  assumes "init_step (w, pcs) (w', pcs')" and "init_lock w"
    and "i < length pcs" and "pcs ! i = NotStarted"
  shows "pcs' ! i = NotStarted"
  using assms
  by (cases rule: init_step.cases) (auto simp: nth_list_update lock_acquire_def split: if_splits)

lemma init_is_a_run:
  assumes l: "\<not> init_lock w" and i: "i < length pcs" and n: "pcs ! i = NotStarted"
    and r: "init env w = (r, w')"
  shows "rtranclp init_step (w, pcs) (w', pcs[i := Finished r])"
proof -
  let ?w1 = "w\<lparr>init_lock := True\<rparr>"
  let ?p1 = "pcs[i := InLock]"
  have a: "lock_acquire w = (Returns (), ?w1)" using l by (simp add: lock_acquire_def)
  have s1: "init_step (w, pcs) (?w1, ?p1)"
    by (rule init_step.take_lock [OF i n a])
  have i1: "i < length ?p1" and n1: "?p1 ! i = InLock" using i by simp_all
  have r': "init env w = (case init_body env ?w1 of (Blocks, v) \<Rightarrow> (Blocks, v) | (x, v) \<Rightarrow> (x, lock_release v))"
    using l by (simp add: init_def synchronized_def lock_acquire_def)
  show ?thesis
  proof (cases "pool w")
    case (Some p)
    then have b: "init_body env ?w1 = (Returns (), ?w1)" by (simp add: init_body_def)
    with r r' have e: "r = Returns ()" "w' = lock_release ?w1" by simp_all
    have s2: "init_step (?w1, ?p1) (?w1, ?p1[i := Leaving (Returns ())])"
      by (rule init_step.pool_seen [OF i1 n1]) (simp add: Some)
    have s3: "init_step (?w1, ?p1[i := Leaving (Returns ())])
                (lock_release ?w1, ?p1[i := Leaving (Returns ()), i := Finished (Returns ())])"
      by (rule init_step.give_lock) (simp_all add: i)
    from s1 s2 s3 e show ?thesis by simp
  next
    case None
    have s2: "init_step (?w1, ?p1) (?w1, ?p1[i := Building])"
      by (rule init_step.pool_missing [OF i1 n1]) (simp add: None)
    obtain r1 w2 where bp: "build_pool env ?w1 = (r1, w2)" by (cases "build_pool env ?w1")
    from build_pool_frame [OF bp] have nb1: "r1 \<noteq> Blocks" by simp
    show ?thesis
    proof (cases r1)
      case (Returns p)
      let ?w3 = "w2\<lparr>pool := Some p\<rparr>"
      have s3: "init_step (?w1, ?p1[i := Building]) (?w3, ?p1[i := Building, i := PoolStored])"
        by (rule init_step.pool_built [where env = env]) (simp_all add: i bp [unfolded Returns])
      obtain r2 w4 where bs: "build_semaphore env ?w3 = (r2, w4)"
        by (cases "build_semaphore env ?w3")
      from build_semaphore_frame [OF bs] have nb2: "r2 \<noteq> Blocks" by simp
      show ?thesis
      proof (cases r2)
        case (Returns k)
        let ?w5 = "w4\<lparr>sem_remaining := Some k\<rparr>"
        have b: "init_body env ?w1 = (Returns (), ?w5)"
          using None bp \<open>r1 = Returns p\<close> bs Returns by (simp add: init_body_def)
        with r r' have e: "r = Returns ()" "w' = lock_release ?w5" by simp_all
        have s4: "init_step (?w3, ?p1[i := Building, i := PoolStored])
                    (?w5, ?p1[i := Building, i := PoolStored, i := Leaving (Returns ())])"
          by (rule init_step.semaphore_built [where env = env])
             (simp_all add: i bs [unfolded Returns])
        have s5: "init_step (?w5, ?p1[i := Building, i := PoolStored, i := Leaving (Returns ())])
                    (lock_release ?w5, ?p1[i := Building, i := PoolStored, i := Leaving (Returns ()),
                                           i := Finished (Returns ())])"
          by (rule init_step.give_lock) (simp_all add: i)
        from s1 s2 s3 s4 s5 e show ?thesis by simp
      next
        case (Raises x)
        have b: "init_body env ?w1 = (Raises x, w4)"
          using None bp \<open>r1 = Returns p\<close> bs Raises by (simp add: init_body_def)
        with r r' have e: "r = Raises x" "w' = lock_release w4" by simp_all
        have s4: "init_step (?w3, ?p1[i := Building, i := PoolStored])
                    (w4, ?p1[i := Building, i := PoolStored, i := Leaving (Raises x)])"
          by (rule init_step.semaphore_raises [where env = env])
             (simp_all add: i bs [unfolded Raises])
        have s5: "init_step (w4, ?p1[i := Building, i := PoolStored, i := Leaving (Raises x)])
                    (lock_release w4, ?p1[i := Building, i := PoolStored, i := Leaving (Raises x),
                                          i := Finished (Raises x)])"
          by (rule init_step.give_lock) (simp_all add: i)
        from s1 s2 s3 s4 s5 e show ?thesis by simp
      next
        case Blocks
        with nb2 show ?thesis by simp
      qed
    next
      case (Raises x)
      have b: "init_body env ?w1 = (Raises x, w2)"
        using None bp Raises by (simp add: init_body_def)
      with r r' have e: "r = Raises x" "w' = lock_release w2" by simp_all
      have s3: "init_step (?w1, ?p1[i := Building]) (w2, ?p1[i := Building, i := Leaving (Raises x)])"
        by (rule init_step.pool_raises [where env = env]) (simp_all add: i bp [unfolded Raises])
      have s4: "init_step (w2, ?p1[i := Building, i := Leaving (Raises x)])
                  (lock_release w2, ?p1[i := Building, i := Leaving (Raises x), i := Finished (Raises x)])"
        by (rule init_step.give_lock) (simp_all add: i)
      from s1 s2 s3 s4 e show ?thesis by simp
    next
      case Blocks
      with nb1 show ?thesis by simp
    qed
  qed
qed

text \<open>
  C4. From a world with no pool, no semaphore, the lock free and no pool or semaphore
  object constructed yet: a construction that returns has constructed one pool object
  and one semaphore object and installed them, and every later construction, whatever
  its collaborators answer, returns with the world as it was. For threads whose steps
  interleave under the lock of \<^verbatim>\<open>synchronized\<close>: in every state they reach, exactly one
  pool object has been constructed if a pool is installed and none otherwise, and the
  same for the semaphore; a construction attempted while a thread is inside the lock
  blocks; and through every further run of steps an installed pool and an installed
  semaphore stay installed, with still one object of each constructed.
\<close>

theorem pool_constructed_once:
  assumes "pool w0 = None" and "sem_remaining w0 = None" and "\<not> init_lock w0"
    and "pools_built (trace w0) = 0" and "semaphores_built (trace w0) = 0"
  shows "(init env w0 = (Returns (), w1) \<longrightarrow>
            pool w1 = Some [] \<and> (\<exists>n. sem_remaining w1 = Some n) \<and>
            pools_built (trace w1) = 1 \<and> semaphores_built (trace w1) = 1 \<and>
            (\<forall>env'. init env' w1 = (Returns (), w1))) \<and>
         (rtranclp init_step (w0, replicate k NotStarted) (w, pcs) \<longrightarrow>
            pools_built (trace w) = (if pool w = None then 0 else 1) \<and>
            semaphores_built (trace w) = (if sem_remaining w = None then 0 else 1)) \<and>
         (rtranclp init_step (w0, replicate k NotStarted) (w, pcs) \<and>
          i < length pcs \<and> in_lock (pcs ! i) \<longrightarrow>
            init env' w = (Blocks, w)) \<and>
         (rtranclp init_step (w0, replicate k NotStarted) (w, pcs) \<and>
          rtranclp init_step (w, pcs) (w', pcs') \<longrightarrow>
            (pool w \<noteq> None \<longrightarrow> pool w' = pool w \<and> pools_built (trace w') = 1) \<and>
            (sem_remaining w \<noteq> None \<longrightarrow>
               sem_remaining w' = sem_remaining w \<and> semaphores_built (trace w') = 1))"
proof -
  note start = init_inv_start [OF assms(1,2,4,5)]
  have first: "pool w1 = Some [] \<and> (\<exists>n. sem_remaining w1 = Some n) \<and>
               pools_built (trace w1) = 1 \<and> semaphores_built (trace w1) = 1 \<and>
               (\<forall>env'. init env' w1 = (Returns (), w1))"
    if i: "init env w0 = (Returns (), w1)"
  proof -
    from init_returns [OF assms(1,3) i] obtain cfg v where
      w1: "w1 = w0\<lparr>pool := Some [], sem_remaining := Some (nat v),
                     trace := trace w0 @ [Parse [], NewPool cfg None, Parse [], NewSemaphore v None]\<rparr>"
      by blast
    have "init env' w1 = (Returns (), w1)" for env'
      by (rule init_when_pool_set [of _ "[]"]) (simp_all add: w1 assms(3))
    with w1 assms(4,5) show ?thesis by simp
  qed
  have counts: "pools_built (trace w) = (if pool w = None then 0 else 1) \<and>
                semaphores_built (trace w) = (if sem_remaining w = None then 0 else 1)"
    if r: "rtranclp init_step (w0, replicate k NotStarted) (w, pcs)" for w pcs
    by (rule init_inv_counts [OF init_run_inv [OF r start]])
  have later: "(pool w \<noteq> None \<longrightarrow> pool w' = pool w \<and> pools_built (trace w') = 1) \<and>
               (sem_remaining w \<noteq> None \<longrightarrow>
                  sem_remaining w' = sem_remaining w \<and> semaphores_built (trace w') = 1)"
    if r: "rtranclp init_step (w0, replicate k NotStarted) (w, pcs)"
      and r': "rtranclp init_step (w, pcs) (w', pcs')"
  proof -
    from r r' have "rtranclp init_step (w0, replicate k NotStarted) (w', pcs')" by simp
    from counts [OF this] init_run_stable [OF r' init_run_inv [OF r start]]
    show ?thesis by auto
  qed
  have waits: "init env' w = (Blocks, w)"
    if r: "rtranclp init_step (w0, replicate k NotStarted) (w, pcs)"
      and i: "i < length pcs" "in_lock (pcs ! i)"
  proof -
    from init_run_inv [OF r start] i have "init_lock w"
      unfolding init_inv_def Let_def by auto
    then show ?thesis by (rule init_when_locked)
  qed
  from first counts waits later show ?thesis by blast
qed

theorem pool_constructed_once_witness:
  "pool world_start = None \<and> sem_remaining world_start = None \<and> \<not> init_lock world_start \<and>
   pools_built (trace world_start) = 0 \<and> semaphores_built (trace world_start) = 0 \<and>
   init env_ok world_start =
     (Returns (),
      \<lparr>pool = Some [], sem_remaining = Some 2, init_lock = False,
       trace = [Parse [], NewPool [(''host'', ''db''), (''minconn'', ''1''), (''maxconn'', ''2'')] None,
                Parse [], NewSemaphore 2 None]\<rparr>) \<and>
   init env_unreachable
       \<lparr>pool = Some [], sem_remaining = Some 2, init_lock = False,
        trace = [Parse [], NewPool [(''host'', ''db''), (''minconn'', ''1''), (''maxconn'', ''2'')] None,
                 Parse [], NewSemaphore 2 None]\<rparr> =
     (Returns (),
      \<lparr>pool = Some [], sem_remaining = Some 2, init_lock = False,
       trace = [Parse [], NewPool [(''host'', ''db''), (''minconn'', ''1''), (''maxconn'', ''2'')] None,
                Parse [], NewSemaphore 2 None]\<rparr>) \<and>
   rtranclp init_step (world_start, replicate 2 NotStarted)
     (\<lparr>pool = Some [], sem_remaining = Some 2, init_lock = True,
       trace = [Parse [], NewPool [(''host'', ''db''), (''minconn'', ''1''), (''maxconn'', ''2'')] None,
                Parse [], NewSemaphore 2 None]\<rparr>,
      [Leaving (Returns ()), NotStarted]) \<and>
   rtranclp init_step
     (\<lparr>pool = Some [], sem_remaining = Some 2, init_lock = True,
       trace = [Parse [], NewPool [(''host'', ''db''), (''minconn'', ''1''), (''maxconn'', ''2'')] None,
                Parse [], NewSemaphore 2 None]\<rparr>,
      [Leaving (Returns ()), NotStarted])
     (\<lparr>pool = Some [], sem_remaining = Some 2, init_lock = False,
       trace = [Parse [], NewPool [(''host'', ''db''), (''minconn'', ''1''), (''maxconn'', ''2'')] None,
                Parse [], NewSemaphore 2 None]\<rparr>,
      [Finished (Returns ()), Finished (Returns ())]) \<and>
   0 < length [Leaving (Returns ()), NotStarted] \<and>
   in_lock ([Leaving (Returns ()), NotStarted] ! 0) \<and>
   init env_ok
       \<lparr>pool = Some [], sem_remaining = Some 2, init_lock = True,
        trace = [Parse [], NewPool [(''host'', ''db''), (''minconn'', ''1''), (''maxconn'', ''2'')] None,
                 Parse [], NewSemaphore 2 None]\<rparr> =
     (Blocks,
      \<lparr>pool = Some [], sem_remaining = Some 2, init_lock = True,
       trace = [Parse [], NewPool [(''host'', ''db''), (''minconn'', ''1''), (''maxconn'', ''2'')] None,
                Parse [], NewSemaphore 2 None]\<rparr>) \<and>
   pools_built [Parse [], NewPool [(''host'', ''db''), (''minconn'', ''1''), (''maxconn'', ''2'')] None,
                Parse [], NewSemaphore 2 None] = 1 \<and>
   semaphores_built [Parse [], NewPool [(''host'', ''db''), (''minconn'', ''1''), (''maxconn'', ''2'')] None,
                     Parse [], NewSemaphore 2 None] = 1"
proof -
  let ?cfg = "[(''host'', ''db''), (''minconn'', ''1''), (''maxconn'', ''2'')]"
  let ?a = "\<lparr>pool = None, sem_remaining = None, init_lock = True, trace = []\<rparr>"
  let ?b = "\<lparr>pool = None, sem_remaining = None, init_lock = True,
             trace = [Parse [], NewPool ?cfg None]\<rparr>"
  let ?c = "\<lparr>pool = Some [], sem_remaining = None, init_lock = True,
             trace = [Parse [], NewPool ?cfg None]\<rparr>"
  let ?d = "\<lparr>pool = Some [], sem_remaining = None, init_lock = True,
             trace = [Parse [], NewPool ?cfg None, Parse [], NewSemaphore 2 None]\<rparr>"
  let ?e = "\<lparr>pool = Some [], sem_remaining = Some 2, init_lock = True,
             trace = [Parse [], NewPool ?cfg None, Parse [], NewSemaphore 2 None]\<rparr>"
  let ?f = "\<lparr>pool = Some [], sem_remaining = Some 2, init_lock = False,
             trace = [Parse [], NewPool ?cfg None, Parse [], NewSemaphore 2 None]\<rparr>"
  have u: "pool world_start = None" "sem_remaining world_start = None" "\<not> init_lock world_start"
    "pools_built (trace world_start) = 0" "semaphores_built (trace world_start) = 0"
    by (simp_all add: sample_defs)
  have i1: "init env_ok world_start = (Returns (), ?f)"
    by (simp add: init_defs pool_error_def emit_def int_defs sample_defs)
  have s1: "init_step (world_start, [NotStarted, NotStarted]) (?a, [InLock, NotStarted])"
    using init_step.take_lock [of 0 "[NotStarted, NotStarted]" world_start ?a]
    by (simp add: lock_acquire_def sample_defs)
  have s2: "init_step (?a, [InLock, NotStarted]) (?a, [Building, NotStarted])"
    using init_step.pool_missing [of 0 "[InLock, NotStarted]" ?a] by simp
  have s3: "init_step (?a, [Building, NotStarted]) (?c, [PoolStored, NotStarted])"
    using init_step.pool_built [of 0 "[Building, NotStarted]" env_ok ?a "[]" ?b]
    by (simp add: init_defs pool_error_def emit_def sample_defs)
  have s4: "init_step (?c, [PoolStored, NotStarted]) (?e, [Leaving (Returns ()), NotStarted])"
    using init_step.semaphore_built [of 0 "[PoolStored, NotStarted]" env_ok ?c 2 ?d]
    by (simp add: init_defs emit_def int_defs sample_defs)
  have s5: "init_step (?e, [Leaving (Returns ()), NotStarted]) (?f, [Finished (Returns ()), NotStarted])"
    using init_step.give_lock [of 0 "[Leaving (Returns ()), NotStarted]" "Returns ()" ?e]
    by (simp add: lock_release_def)
  have s6: "init_step (?f, [Finished (Returns ()), NotStarted]) (?e, [Finished (Returns ()), InLock])"
    using init_step.take_lock [of 1 "[Finished (Returns ()), NotStarted]" ?f ?e]
    by (simp add: lock_acquire_def)
  have s7: "init_step (?e, [Finished (Returns ()), InLock])
              (?e, [Finished (Returns ()), Leaving (Returns ())])"
    using init_step.pool_seen [of 1 "[Finished (Returns ()), InLock]" ?e "[]"] by simp
  have s8: "init_step (?e, [Finished (Returns ()), Leaving (Returns ())])
              (?f, [Finished (Returns ()), Finished (Returns ())])"
    using init_step.give_lock [of 1 "[Finished (Returns ()), Leaving (Returns ())]" "Returns ()" ?e]
    by (simp add: lock_release_def)
  have r1: "rtranclp init_step (world_start, replicate 2 NotStarted)
              (?e, [Leaving (Returns ()), NotStarted])"
    using s1 s2 s3 s4 by (simp add: numeral_2_eq_2)
  have r2: "rtranclp init_step (?e, [Leaving (Returns ()), NotStarted])
              (?f, [Finished (Returns ()), Finished (Returns ())])"
    using s5 s6 s7 s8 by simp
  note t = pool_constructed_once [OF u, of env_ok ?f 2 ?e "[Leaving (Returns ()), NotStarted]"
      0 env_ok ?f "[Finished (Returns ()), Finished (Returns ())]"]
  from t i1 have x: "init env_unreachable ?f = (Returns (), ?f)" by blast
  from t r1 r2 have y: "pools_built (trace ?f) = 1 \<and> semaphores_built (trace ?f) = 1" by simp
  have z: "0 < length [Leaving (Returns ()), NotStarted]"
    "in_lock ([Leaving (Returns ()), NotStarted] ! 0)" by simp_all
  from t r1 z have b: "init env_ok ?e = (Blocks, ?e)" by blast
  from u i1 r1 r2 x y z b show ?thesis by simp
qed

section \<open>The raw connection\<close>

text \<open>
  C9. \<^verbatim>\<open>Connection.__call__\<close> leaves \<^verbatim>\<open>_pool\<close>, \<^verbatim>\<open>_sem_remaining\<close> and the lock as they
  were, however it ends. With the section read and no keyword given twice, it calls
  \<^verbatim>\<open>psycopg2.connect\<close> once, with the parameters of the section except \<^verbatim>\<open>minconn\<close> and
  \<^verbatim>\<open>maxconn\<close> followed by the caller's keywords, and returns the connection that call
  returns (or raises what it raises); it calls neither the semaphore nor the pool.
\<close>

theorem call_leaves_pool_alone:
  "pool (snd (call env args kwargs w)) = pool w \<and>
   sem_remaining (snd (call env args kwargs w)) = sem_remaining w \<and>
   init_lock (snd (call env args kwargs w)) = init_lock w \<and>
   (config_section env = Inr section \<and> set (map fst section) \<inter> set (map fst kwargs) = {} \<longrightarrow>
      call env args kwargs w =
        (case connect_res env args
                ([kv \<leftarrow> section. fst kv \<noteq> ''minconn'' \<and> fst kv \<noteq> ''maxconn''] @ kwargs) of
           Inl e \<Rightarrow> Raises e | Inr c \<Rightarrow> Returns c,
         w\<lparr>trace := trace w @
              [Parse [''minconn'', ''maxconn''],
               Connect args ([kv \<leftarrow> section. fst kv \<noteq> ''minconn'' \<and> fst kv \<noteq> ''maxconn''] @ kwargs)]\<rparr>))"
  by (auto simp: call_def parse_def emit_def split: sum.splits)

theorem call_leaves_pool_alone_witness:
  "config_section env_ok = Inr [(''host'', ''db''), (''minconn'', ''1''), (''maxconn'', ''2'')] \<and>
   set (map fst [(''host'', ''db''), (''minconn'', ''1''), (''maxconn'', ''2'')]) \<inter> set (map fst []) = {} \<and>
   call env_ok [] [] world_ready =
     (Returns 100,
      world_ready\<lparr>trace := [Parse [''minconn'', ''maxconn''], Connect [] [(''host'', ''db'')]]\<rparr>)"
proof -
  have c: "config_section env_ok = Inr [(''host'', ''db''), (''minconn'', ''1''), (''maxconn'', ''2'')]"
    by (simp add: sample_defs)
  have r: "connect_res env_ok [] [(''host'', ''db'')] = Inr 100"
    by (simp add: sample_defs)
  note t = call_leaves_pool_alone [of env_ok "[]" "[]" world_ready
      "[(''host'', ''db''), (''minconn'', ''1''), (''maxconn'', ''2'')]"]
  from t c r have "call env_ok [] [] world_ready =
     (Returns 100,
      world_ready\<lparr>trace := [Parse [''minconn'', ''maxconn''], Connect [] [(''host'', ''db'')]]\<rparr>)"
    by (simp add: world_ready_def)
  with c show ?thesis by simp
qed

section \<open>The capacity bound\<close>
















text \<open>
  The functions \<open>enter\<close> and \<open>exit_conn\<close> and the steps are the same program: what
  they compute is a run of one statement through its steps.
\<close>

lemma enter_is_a_run:
  assumes "i < length pcs" and "pcs ! i = Idle" and "enter env w = (Returns c, w')"
  shows "rtranclp lease_step (w, pcs) (w', pcs[i := Leased c])"
proof -
  from assms(3) obtain w1 where a: "sem_acquire w = (Returns (), w1)"
    and g: "getconn env w1 = (Returns c, w')"
    by (cases "sem_acquire w"; cases "fst (sem_acquire w)") (simp_all add: enter_def)
  have s1: "lease_step (w, pcs) (w1, pcs[i := HasPermit])"
    by (rule lease_step.acquire [OF assms(1,2) a])
  have s2: "lease_step (w1, pcs[i := HasPermit]) (w', pcs[i := HasPermit, i := Leased c])"
    by (rule lease_step.checkout [where env = env]) (simp_all add: assms(1) g)
  from s1 s2 show ?thesis by simp
qed

lemma exit_conn_is_a_run:
  assumes "i < length pcs" and "pcs ! i = Leased c" and "exit_conn (Some c) w = (Returns (), w')"
  shows "rtranclp lease_step (w, pcs) (w', pcs[i := Idle])"
proof -
  from assms(3) obtain w1 where p: "putconn (Some c) w = (Returns (), w1)"
    and r: "sem_release w1 = (Returns (), w')"
    by (cases "putconn (Some c) w"; cases "fst (putconn (Some c) w)") (simp_all add: exit_conn_def)
  have s1: "lease_step (w, pcs) (w1, pcs[i := PutBack])"
    by (rule lease_step.putback [OF assms(1,2) p])
  have s2: "lease_step (w1, pcs[i := PutBack]) (w', pcs[i := PutBack, i := Idle])"
    by (rule lease_step.release) (simp_all add: assms(1) r)
  from s1 s2 show ?thesis by simp
qed


end
